theory Spec2Isabelle
  imports Complex_Main "HOL-Library.Log_Nat"
begin

section \<open>JavaScript values and errors\<close>

text \<open>
  The program is JavaScript. A value that crosses a function boundary is one of the
  language's dynamic types. A finite number is a rational (every finite double is one), with
  \<open>NaN\<close> and the two infinities apart (\<open>JInfinity True\<close> is the positive one); the zero
  has no sign. Strings are \<open>string\<close>. A \<open>Date\<close> object carries its time value in
  milliseconds, \<open>None\<close> for an invalid date. Everything else that is not primitive stands
  for an object.
\<close>

datatype js_value =
    JUndefined
  | JNull
  | JBoolean bool
  | JNumber rat
  | JNaN
  | JInfinity bool
  | JString string
  | JDate "int option"
  | JObject

text \<open>Every \<open>throw new Error(...)\<close> of the source is a constructor, named after its message.\<close>

datatype error =
    IdMustBePositiveInteger       \<comment> \<open>'ID must be a positive integer'\<close>
  | InputMustBeNonEmptyString     \<comment> \<open>'Input must be a non-empty string'\<close>
  | InvalidBase62Character char   \<comment> \<open>'Invalid Base62 character: c'\<close>
  | UrlIsRequired                 \<comment> \<open>'URL is required'\<close>
  | InvalidUrlFormat              \<comment> \<open>'Invalid URL format. Must include http:// or https://'\<close>
  | UrlTooLong                    \<comment> \<open>'URL too long. Maximum length is ... characters'\<close>
  | TypeError                     \<comment> \<open>reading a property of undefined\<close>
  | ClientError string            \<comment> \<open>whatever a store or cache client throws\<close>

text \<open>Truthiness, as \<open>if (v)\<close>, \<open>!v\<close> and \<open>v || w\<close> test it.\<close>

fun truthy :: "js_value \<Rightarrow> bool" where
  "truthy JUndefined = False"
| "truthy JNull = False"
| "truthy (JBoolean b) = b"
| "truthy (JNumber q) = (q \<noteq> 0)"
| "truthy JNaN = False"
| "truthy (JInfinity b) = True"
| "truthy (JString s) = (s \<noteq> [])"
| "truthy (JDate t) = True"
| "truthy JObject = True"

text \<open>\<open>a === b\<close>. Primitives are compared by value (\<open>NaN\<close> equals nothing); two objects
  are equal only when they are the same object, which the model, having no references, never
  assumes.\<close>

fun js_strict_equals :: "js_value \<Rightarrow> js_value \<Rightarrow> bool" where
  "js_strict_equals JNaN b = False"
| "js_strict_equals (JDate t) b = False"
| "js_strict_equals JObject b = False"
| "js_strict_equals a b = (a = b)"

text \<open>\<open>a < now\<close> between two \<open>Date\<close>s, the second one valid: an invalid date compares
  false.\<close>

fun date_lt :: "int option \<Rightarrow> int \<Rightarrow> bool" where
  "date_lt None now = False"
| "date_lt (Some t) now = (t < now)"

text \<open>\<open>params[i]\<close>: \<open>undefined\<close> beyond the end of the array.\<close>

definition param_at :: "js_value list \<Rightarrow> nat \<Rightarrow> js_value" where
  "param_at params i = (if i < length params then params ! i else JUndefined)"

text \<open>An object literal is a list of its properties in order; reading a property that is
  absent gives \<open>undefined\<close>.\<close>

type_synonym row = "(string \<times> js_value) list"

definition row_get :: "row \<Rightarrow> string \<Rightarrow> js_value" where
  "row_get r k = (case map_of r k of Some v \<Rightarrow> v | None \<Rightarrow> JUndefined)"

subsection \<open>String methods\<close>

text \<open>\<open>s.startsWith(p)\<close>, \<open>s.includes(p)\<close> (a substring test) and \<open>s.indexOf(c)\<close> for a
  one-character \<open>c\<close> (\<open>-1\<close> when absent).\<close>

fun js_startsWith :: "string \<Rightarrow> string \<Rightarrow> bool" where
  "js_startsWith s [] = True"
| "js_startsWith [] (d # p) = False"
| "js_startsWith (c # s) (d # p) = (c = d \<and> js_startsWith s p)"

fun js_includes :: "string \<Rightarrow> string \<Rightarrow> bool" where
  "js_includes [] p = (p = [])"
| "js_includes (c # s) p = (js_startsWith (c # s) p \<or> js_includes s p)"

fun js_indexOf :: "string \<Rightarrow> char \<Rightarrow> int" where
  "js_indexOf [] c = - 1"
| "js_indexOf (d # s) c =
     (if d = c then 0 else (let r = js_indexOf s c in if r < 0 then - 1 else r + 1))"

text \<open>\<open>s.trim()\<close> removes the white space of both ends (tab, line feed, vertical tab, form
  feed, carriage return, space, no-break space).\<close>

definition is_js_whitespace :: "char \<Rightarrow> bool" where
  "is_js_whitespace c =
     (c \<in> set [CHR 0x09, CHR 0x0A, CHR 0x0B, CHR 0x0C, CHR 0x0D, CHR 0x20, CHR 0xA0])"

definition js_trim :: "string \<Rightarrow> string" where
  "js_trim s = dropWhile is_js_whitespace (rev (dropWhile is_js_whitespace (rev s)))"

text \<open>The decimal digits of a number, as a template literal prints an integer.\<close>

function decimal :: "nat \<Rightarrow> string" where
  "decimal n =
     (if n < 10 then [''0123456789'' ! n]
      else decimal (n div 10) @ [''0123456789'' ! (n mod 10)])"
  by pat_completeness auto
termination
  by (relation "measure (\<lambda>n. n)") auto

declare decimal.simps [simp del]

section \<open>Double-precision arithmetic\<close>

text \<open>
  A number of the program is an IEEE 754 binary64 value, and \<open>/\<close>, \<open>*\<close> and \<open>+\<close> give the
  exact result rounded to the nearest such value, a tie going to the even significand. A
  finite double is \<open>m * 2^q\<close> with \<open>\<bar>m\<bar> < 2^53\<close> and \<open>- 1074 \<le> q \<le> 971\<close>; the doubles next to
  a number \<open>x\<close> with \<open>2^e \<le> \<bar>x\<bar> < 2^(e + 1)\<close> are the multiples of \<open>2^q\<close> for
  \<open>q = max e (- 1022) - 52\<close>.
\<close>

definition pow2 :: "int \<Rightarrow> rat" where
  "pow2 k = (if k \<ge> 0 then 2 ^ nat k else 1 / 2 ^ nat (- k))"

text \<open>The exponent \<open>e\<close> with \<open>2^e \<le> x < 2^(e + 1)\<close>, for \<open>x > 0\<close>.\<close>

definition floor_log2 :: "rat \<Rightarrow> int" where
  "floor_log2 x = (if x \<ge> 1 then bitlen \<lfloor>x\<rfloor> - 1 else - bitlen (\<lceil>1 / x\<rceil> - 1))"

text \<open>The nearest integer, a tie going to the even one.\<close>

definition round_even :: "rat \<Rightarrow> int" where
  "round_even y =
     (let f = \<lfloor>y\<rfloor>; d = y - of_int f
      in if d < 1 / 2 then f else if d > 1 / 2 then f + 1 else if even f then f else f + 1)"

text \<open>Rounding to the nearest double, the exponent not yet bounded from above.\<close>

definition round_double :: "rat \<Rightarrow> rat" where
  "round_double x =
     (if x = 0 then 0
      else (let q = max (floor_log2 \<bar>x\<bar>) (- 1022) - 52
            in sgn x * of_int (round_even (\<bar>x\<bar> / pow2 q)) * pow2 q))"

text \<open>The number an exact result becomes: a result that rounds to \<open>2^1024\<close> or beyond in
  magnitude is an infinity (\<open>JInfinity True\<close> the positive one).\<close>

definition double_of :: "rat \<Rightarrow> js_value" where
  "double_of x =
     (let r = round_double x
      in if r \<ge> 2 ^ 1024 then JInfinity True
         else if r \<le> - (2 ^ 1024) then JInfinity False
         else JNumber r)"

text \<open>\<open>a * y\<close> and \<open>a + y\<close> for a number \<open>a\<close> and a finite number \<open>y\<close>.\<close>

definition js_times :: "js_value \<Rightarrow> rat \<Rightarrow> js_value" where
  "js_times a y =
     (case a of
        JNumber x \<Rightarrow> double_of (x * y)
      | JInfinity b \<Rightarrow> if y = 0 then JNaN else JInfinity (b = (y > 0))
      | _ \<Rightarrow> JNaN)"

definition js_plus :: "js_value \<Rightarrow> rat \<Rightarrow> js_value" where
  "js_plus a y =
     (case a of
        JNumber x \<Rightarrow> double_of (x + y)
      | JInfinity b \<Rightarrow> JInfinity b
      | _ \<Rightarrow> JNaN)"

section \<open>The code codec (lib/id-generator.js)\<close>

definition BASE62_ALPHABET :: string where
  "BASE62_ALPHABET = ''0123456789abcdefghijklmnopqrstuvwxyzABCDEFGHIJKLMNOPQRSTUVWXYZ''"

definition BASE :: nat where
  "BASE = 62"

text \<open>\<open>Number.isInteger\<close>: false for every value that is not a number, for \<open>NaN\<close> and the
  infinities, and for a finite number with a fractional part.\<close>

definition Number_isInteger :: "js_value \<Rightarrow> bool" where
  "Number_isInteger v = (case v of JNumber q \<Rightarrow> of_int \<lfloor>q\<rfloor> = q | _ \<Rightarrow> False)"

text \<open>
  The \<open>while (num > 0)\<close> loop. \<open>num\<close> is a non-negative integer all along: the argument has
  passed \<open>Number.isInteger\<close>, and afterwards it is the result of \<open>Math.floor\<close>. The remainder
  \<open>num % BASE\<close> of two doubles is exact; the quotient \<open>num / BASE\<close> is rounded to a double
  before \<open>Math.floor\<close> takes its integer part. The digit goes in front of the result.
\<close>

function idToBase62_loop :: "nat \<Rightarrow> string \<Rightarrow> string" where
  "idToBase62_loop num result =
     (if num > 0
      then idToBase62_loop (nat \<lfloor>round_double (of_nat num / of_nat BASE)\<rfloor>)
             (BASE62_ALPHABET ! (num mod BASE) # result)
      else result)"
  by pat_completeness auto
termination
proof (relation "measure (\<lambda>(num, result). num)")
  show "wf (measure (\<lambda>(num, result). num))"
    by simp
next
  fix num :: nat and result :: string
  assume n: "0 < num"
  let ?x = "of_nat num / 62 :: rat"
  let ?e = "floor_log2 ?x"
  let ?p = "pow2 (max ?e (- 1022) - 52)"
  from n have x: "0 < ?x" "1 / 62 \<le> ?x"
    by simp_all
  have pos: "0 < pow2 k" for k
    by (simp add: pow2_def)
  have mono: "pow2 a \<le> pow2 b" if "a \<le> b" for a b
  proof -
    have "pow2 k = 2 powi k" for k
      by (simp add: pow2_def power_int_def field_simps)
    with that show ?thesis
      by (simp add: power_int_increasing)
  qed
  have "of_int (round_even (?x / ?p)) \<le> ?x / ?p + 1 / 2"
    unfolding round_even_def Let_def by (auto simp: not_less) linarith+
  then have "of_int (round_even (?x / ?p)) * ?p \<le> (?x / ?p + 1 / 2) * ?p"
    using pos [of "max ?e (- 1022) - 52"] by (simp only: mult_le_cancel_right_pos)
  also have "\<dots> = ?x + ?p / 2"
    using pos [of "max ?e (- 1022) - 52"] by (simp add: field_simps)
  finally have r: "round_double ?x \<le> ?x + ?p / 2"
    using x(1) by (simp add: round_double_def Let_def)
  have p: "?p \<le> ?x"
  proof (cases "1 \<le> ?x")
    case True
    then have f: "0 < \<lfloor>?x\<rfloor>"
      by simp
    then have b: "0 \<le> bitlen \<lfloor>?x\<rfloor> - 1"
      using bitlen_eq_zero_iff [of "\<lfloor>?x\<rfloor>"] bitlen_nonneg [of "\<lfloor>?x\<rfloor>"] by linarith
    from bitlen_bounds [OF f] have "2 ^ nat (bitlen \<lfloor>?x\<rfloor> - 1) \<le> \<lfloor>?x\<rfloor>"
      by simp
    then have "(of_int (2 ^ nat (bitlen \<lfloor>?x\<rfloor> - 1)) :: rat) \<le> of_int \<lfloor>?x\<rfloor>"
      by (simp only: of_int_le_iff)
    also have "\<dots> \<le> ?x"
      by (rule of_int_floor_le)
    finally have "pow2 ?e \<le> ?x"
      using True b by (simp add: floor_log2_def pow2_def)
    moreover from True b have "?p \<le> pow2 ?e"
      by (intro mono) (simp add: floor_log2_def)
    ultimately show ?thesis
      by simp
  next
    case False
    then have "?e \<le> 0"
      using bitlen_nonneg [of "\<lceil>1 / ?x\<rceil> - 1"] by (simp add: floor_log2_def)
    then have "?p \<le> pow2 (- 52)"
      by (intro mono) simp
    also have "\<dots> \<le> 1 / 62"
      by (simp add: pow2_def)
    finally show ?thesis
      using x(2) by simp
  qed
  from r p have "round_double ?x \<le> ?x + ?x / 2"
    by simp
  also have "\<dots> < of_nat num"
    using n by simp
  finally have "round_double ?x < of_int (int num)"
    by simp
  then have "\<lfloor>round_double ?x\<rfloor> < int num"
    by (simp only: floor_less_iff)
  with n show "((nat \<lfloor>round_double (of_nat num / of_nat BASE)\<rfloor>,
                 BASE62_ALPHABET ! (num mod BASE) # result), num, result)
               \<in> measure (\<lambda>(num, result). num)"
    by (simp add: BASE_def)
qed

declare idToBase62_loop.simps [simp del]

definition idToBase62 :: "js_value \<Rightarrow> error + string" where
  "idToBase62 v =
     (case v of
        JNumber q \<Rightarrow>
          if \<not> Number_isInteger v \<or> q < 0 then Inl IdMustBePositiveInteger
          else if q = 0 then Inr [BASE62_ALPHABET ! 0]
          else Inr (idToBase62_loop (nat \<lfloor>q\<rfloor>) [])
      | _ \<Rightarrow> Inl IdMustBePositiveInteger)"

text \<open>The validation loop \<open>for (let char of str)\<close> throws at the first character that the
  alphabet does not include.\<close>

fun base62ToId_validate :: "string \<Rightarrow> error + unit" where
  "base62ToId_validate [] = Inr ()"
| "base62ToId_validate (c # cs) =
     (if \<not> js_includes BASE62_ALPHABET [c] then Inl (InvalidBase62Character c)
      else base62ToId_validate cs)"

text \<open>The accumulation loop \<open>for (let i = 0; i < str.length; i++)\<close>: the product
  \<open>result * BASE\<close> is rounded to a double, and so is the sum with \<open>value\<close>.\<close>

function base62ToId_loop :: "string \<Rightarrow> nat \<Rightarrow> js_value \<Rightarrow> js_value" where
  "base62ToId_loop str i result =
     (if i < length str
      then base62ToId_loop str (i + 1)
             (js_plus (js_times result (of_nat BASE))
                (of_int (js_indexOf BASE62_ALPHABET (str ! i))))
      else result)"
  by pat_completeness auto
termination
  by (relation "measure (\<lambda>(str, i, result). length str - i)") auto

declare base62ToId_loop.simps [simp del]

definition base62ToId :: "js_value \<Rightarrow> error + js_value" where
  "base62ToId v =
     (case v of
        JString str \<Rightarrow>
          if length str = 0 then Inl InputMustBeNonEmptyString
          else (case base62ToId_validate str of
                  Inl e \<Rightarrow> Inl e
                | Inr _ \<Rightarrow> Inr (base62ToId_loop str 0 (JNumber 0)))
      | _ \<Rightarrow> Inl InputMustBeNonEmptyString)"

subsection \<open>What the claims compare the codec with\<close>

text \<open>The value of a digit string read most-significant digit first, each symbol worth its
  position in the alphabet; both in exact integer arithmetic.\<close>

definition digitValue :: "char \<Rightarrow> int" where
  "digitValue c = js_indexOf BASE62_ALPHABET c"

definition positional_value :: "string \<Rightarrow> int" where
  "positional_value s =
     (\<Sum>i < length s. digitValue (s ! i) * 62 ^ (length s - 1 - i))"

definition accumulate :: "string \<Rightarrow> int" where
  "accumulate s = foldl (\<lambda>result c. result * 62 + digitValue c) 0 s"

text \<open>The same accumulation from left to right with each product and each sum rounded to a
  double.\<close>

definition accumulate_double :: "string \<Rightarrow> js_value" where
  "accumulate_double s =
     foldl (\<lambda>result c. js_plus (js_times result 62) (of_int (digitValue c))) (JNumber 0) s"


section \<open>Environment and configuration (config.js)\<close>

text \<open>
  What the program takes from outside the repository: the clock (\<open>new Date()\<close>), the
  engine's \<open>Date\<close> constructor on one argument (its time value, \<open>None\<close> for an invalid
  date), the \<open>validator\<close> package's \<open>isURL\<close> called with \<open>require_protocol: true\<close> and
  \<open>protocols: ['http', 'https']\<close>, the engine's conversion of a value that is not a string
  inside a template literal, and \<open>process.env.BASE_URL || 'http://localhost:3000'\<close>.
\<close>

record env =
  now :: int
  new_Date :: "js_value \<Rightarrow> int option"
  isURL :: "string \<Rightarrow> bool"
  ToString :: "js_value \<Rightarrow> string"
  baseUrl :: string

definition config_redis_ttl :: nat where
  "config_redis_ttl = 86400"

definition config_app_maxUrlLength :: nat where
  "config_app_maxUrlLength = 2048"

definition template :: "env \<Rightarrow> js_value \<Rightarrow> string" where
  "template e v = (case v of JString s \<Rightarrow> s | _ \<Rightarrow> ToString e v)"

section \<open>The store client (db/client.js)\<close>

text \<open>
  The client of the repository keeps the table in a \<open>Map\<close> from id to entry, here the list of
  its pairs in insertion order, and a counter. \<open>query\<close> recognises a statement by the
  substrings of its text, one \<open>if\<close> after the other.
\<close>

record url_entry =
  entry_id :: nat
  original_url :: js_value
  expires_at :: js_value
  short_code :: js_value
  click_count :: nat
  created_at :: int

record db_state =
  urls :: "(nat \<times> url_entry) list"
  currentId :: nat

record query_result =
  rows :: "row list option"
  rowCount :: "nat option"

definition entry_row :: "url_entry \<Rightarrow> row" where
  "entry_row u =
     [(''id'', JNumber (of_nat (entry_id u))),
      (''original_url'', original_url u),
      (''expires_at'', expires_at u),
      (''short_code'', short_code u),
      (''click_count'', JNumber (of_nat (click_count u))),
      (''created_at'', JDate (Some (created_at u)))]"

text \<open>\<open>entry.expires_at && new Date(entry.expires_at) < new Date()\<close>\<close>

definition entry_expired :: "env \<Rightarrow> js_value \<Rightarrow> bool" where
  "entry_expired e x = (truthy x \<and> date_lt (new_Date e x) (now e))"

text \<open>The first entry that satisfies \<open>p\<close> gets \<open>f\<close> applied, as
  \<open>Array.from(urls.values()).find(p)\<close> followed by an assignment to the entry found.\<close>

fun update_first ::
  "(url_entry \<Rightarrow> bool) \<Rightarrow> (url_entry \<Rightarrow> url_entry) \<Rightarrow> (nat \<times> url_entry) list \<Rightarrow>
   (nat \<times> url_entry) list" where
  "update_first p f [] = []"
| "update_first p f ((k, u) # us) =
     (if p u then (k, f u) # us else (k, u) # update_first p f us)"

text \<open>\<open>urls.set(id, entry)\<close>: the value of a key already present is replaced where it stands,
  a new key goes to the end.\<close>

definition urls_set ::
  "nat \<Rightarrow> url_entry \<Rightarrow> (nat \<times> url_entry) list \<Rightarrow> (nat \<times> url_entry) list" where
  "urls_set k u us =
     (if k \<in> set (map fst us)
      then map (\<lambda>(k', u'). if k' = k then (k, u) else (k', u')) us
      else us @ [(k, u)])"

definition db_query ::
  "env \<Rightarrow> string \<Rightarrow> js_value list \<Rightarrow> db_state \<Rightarrow> query_result \<times> db_state" where
  "db_query e sql params st =
    (if js_includes sql ''INSERT INTO urls'' \<and>
        js_strict_equals (param_at params 2) (JString ''TEMP'')
     then (\<lparr>rows = Some [[(''id'', JNumber (of_nat (currentId st)))]], rowCount = None\<rparr>,
           st\<lparr>currentId := currentId st + 1\<rparr>)
     else if js_includes sql ''UPDATE urls SET short_code''
     then (\<lparr>rows = None, rowCount = Some 1\<rparr>, st)
     else if js_includes sql ''SELECT'' \<and> js_includes sql ''short_code = $1''
     then (case List.find (\<lambda>u. js_strict_equals (short_code u) (param_at params 0))
                  (map snd (urls st)) of
             Some entry \<Rightarrow> (\<lparr>rows = Some [entry_row entry], rowCount = Some 1\<rparr>, st)
           | None \<Rightarrow> (\<lparr>rows = Some [], rowCount = Some 0\<rparr>, st))
     else if js_includes sql ''SELECT short_code FROM urls WHERE original_url''
     then (case List.find (\<lambda>u. js_strict_equals (original_url u) (param_at params 0))
                  (map snd (urls st)) of
             Some entry \<Rightarrow>
               (\<lparr>rows = Some [[(''short_code'', short_code entry)]], rowCount = None\<rparr>, st)
           | None \<Rightarrow> (\<lparr>rows = Some [], rowCount = None\<rparr>, st))
     else if js_includes sql ''INSERT'' \<and> length params \<ge> 2
     then (let id = currentId st;
               entry = \<lparr>entry_id = id,
                        original_url = param_at params 0,
                        expires_at = param_at params 1,
                        short_code = (if truthy (param_at params 2) then param_at params 2
                                      else JString (''temp'' @ decimal id)),
                        click_count = 0,
                        created_at = now e\<rparr>
           in (\<lparr>rows = Some [entry_row entry], rowCount = Some 1\<rparr>,
               st\<lparr>urls := urls_set id entry (urls st), currentId := id + 1\<rparr>))
     else if js_includes sql ''UPDATE'' \<and> length params \<ge> 2
     then (\<lparr>rows = None, rowCount = Some 1\<rparr>,
           st\<lparr>urls := map (\<lambda>(k, u). if param_at params 1 = JNumber (of_nat k)
                                     then (k, u\<lparr>short_code := param_at params 0\<rparr>)
                                     else (k, u)) (urls st)\<rparr>)
     else if js_includes sql ''click_count = click_count + 1''
     then (\<lparr>rows = None, rowCount = Some 1\<rparr>,
           st\<lparr>urls := update_first
                          (\<lambda>u. js_strict_equals (short_code u) (param_at params 0))
                          (\<lambda>u. u\<lparr>click_count := click_count u + 1\<rparr>) (urls st)\<rparr>)
     else if js_includes sql ''DELETE FROM urls WHERE expires_at''
     then (let deleted = filter (\<lambda>u. entry_expired e (expires_at u)) (map snd (urls st))
           in (\<lparr>rows = Some (map entry_row deleted), rowCount = Some (length deleted)\<rparr>,
               st\<lparr>urls := filter (\<lambda>(k, u). \<not> entry_expired e (expires_at u)) (urls st)\<rparr>))
     else if js_includes sql ''SELECT NOW()''
     then (\<lparr>rows = Some [[(''now'', JDate (Some (now e)))]], rowCount = Some 1\<rparr>, st)
     else (\<lparr>rows = Some [], rowCount = Some 0\<rparr>, st))"

text \<open>
  The services reach the store and the cache through imported objects. They are parameters of
  the model: a store client answers a statement with a result or throws, a cache client has
  its \<open>isReady\<close> flag and three operations that may throw. Each carries a state of its own.
\<close>

type_synonym 'd db_client =
  "string \<Rightarrow> js_value list \<Rightarrow> 'd \<Rightarrow> (error + query_result) \<times> 'd"

record 'c cache_client =
  cache_isReady :: "'c \<Rightarrow> bool"
  cache_get :: "js_value \<Rightarrow> 'c \<Rightarrow> (error + js_value) \<times> 'c"
  cache_set :: "js_value \<Rightarrow> js_value \<Rightarrow> nat \<Rightarrow> 'c \<Rightarrow> (error + unit) \<times> 'c"
  cache_del :: "js_value \<Rightarrow> 'c \<Rightarrow> (error + unit) \<times> 'c"

text \<open>The client of the repository never throws.\<close>

definition mock_db :: "env \<Rightarrow> db_state db_client" where
  "mock_db e sql params st = (case db_query e sql params st of (r, st') \<Rightarrow> (Inr r, st'))"

section \<open>The cache client (cache/client.js)\<close>

text \<open>An in-memory \<open>Map\<close>. The timer that removes a key \<open>EX\<close> seconds after \<open>set\<close> is outside
  the model.\<close>

record cache_state =
  isReady :: bool
  memoryCache :: "js_value \<rightharpoonup> js_value"

definition mock_cache :: "cache_state cache_client" where
  "mock_cache =
     \<lparr>cache_isReady = isReady,
      cache_get = (\<lambda>key c.
        (Inr (case memoryCache c key of
                Some v \<Rightarrow> if truthy v then v else JNull
              | None \<Rightarrow> JNull), c)),
      cache_set = (\<lambda>key v ex c. (Inr (), c\<lparr>memoryCache := (memoryCache c)(key \<mapsto> v)\<rparr>)),
      cache_del = (\<lambda>key c. (Inr (), c\<lparr>memoryCache := (memoryCache c)(key := None)\<rparr>))\<rparr>"

section \<open>The read path (services/redirect-service.js)\<close>

definition SQL_SELECT_BY_CODE :: string where
  "SQL_SELECT_BY_CODE =
     ''SELECT original_url, expires_at '' @ [CHR 0x0A] @
     ''       FROM urls '' @ [CHR 0x0A] @
     ''       WHERE short_code = $1''"

definition SQL_INCREMENT :: string where
  "SQL_INCREMENT = ''UPDATE urls SET click_count = click_count + 1 WHERE short_code = $1''"

definition SQL_DELETE_BY_CODE :: string where
  "SQL_DELETE_BY_CODE = ''DELETE FROM urls WHERE short_code = $1''"

definition incrementClickCount ::
  "'d db_client \<Rightarrow> string \<Rightarrow> 'd \<Rightarrow> (error + unit) \<times> 'd" where
  "incrementClickCount db shortCode d =
     (case db SQL_INCREMENT [JString shortCode] d of
        (Inl err, d') \<Rightarrow> (Inl err, d')
      | (Inr _, d') \<Rightarrow> (Inr (), d'))"

definition deleteExpiredUrl ::
  "'d db_client \<Rightarrow> 'c cache_client \<Rightarrow> string \<Rightarrow> 'd \<times> 'c \<Rightarrow> (error + unit) \<times> 'd \<times> 'c" where
  "deleteExpiredUrl db cache shortCode s =
     (case s of (d, c) \<Rightarrow>
        (case db SQL_DELETE_BY_CODE [JString shortCode] d of
           (Inl err, d') \<Rightarrow> (Inl err, d', c)
         | (Inr _, d') \<Rightarrow>
             (case cache_del cache (JString shortCode) c of
                (_, c') \<Rightarrow> (Inr (), d', c'))))"

text \<open>
  \<open>getOriginalUrl\<close>. The two detached calls (\<open>incrementClickCount(...).catch(...)\<close> and
  \<open>deleteExpiredUrl(...).catch(...)\<close>) are not awaited and their errors are only logged: the
  model runs them for their effect on the state and drops their outcome, so the state returned
  is the one reached when they have finished.
\<close>

definition getOriginalUrl ::
  "env \<Rightarrow> 'd db_client \<Rightarrow> 'c cache_client \<Rightarrow> string \<Rightarrow> 'd \<times> 'c \<Rightarrow>
   (error + js_value) \<times> 'd \<times> 'c" where
  "getOriginalUrl e db cache shortCode s =
     (case s of (d, c) \<Rightarrow>
       (case (if cache_isReady cache c
              then (case cache_get cache (JString shortCode) c of
                      (Inl err, c') \<Rightarrow> (JUndefined, c')
                    | (Inr v, c') \<Rightarrow> (v, c'))
              else (JUndefined, c)) of
          (cachedUrl, c1) \<Rightarrow>
            if truthy cachedUrl
            then (Inr cachedUrl, snd (incrementClickCount db shortCode d), c1)
            else
              (case db SQL_SELECT_BY_CODE [JString shortCode] d of
                 (Inl err, d1) \<Rightarrow> (Inl err, d1, c1)
               | (Inr result, d1) \<Rightarrow>
                   (case rows result of
                      None \<Rightarrow> (Inl TypeError, d1, c1)
                    | Some rs \<Rightarrow>
                        if length rs = 0 then (Inr JNull, d1, c1)
                        else
                          (let original_url = row_get (rs ! 0) ''original_url'';
                               expires_at = row_get (rs ! 0) ''expires_at''
                           in if truthy expires_at \<and> date_lt (new_Date e expires_at) (now e)
                              then (Inr JNull, snd (deleteExpiredUrl db cache shortCode (d1, c1)))
                              else
                                (let c2 = (if cache_isReady cache c1
                                           then snd (cache_set cache (JString shortCode)
                                                       original_url config_redis_ttl c1)
                                           else c1)
                                 in (Inr original_url,
                                     snd (incrementClickCount db shortCode d1), c2)))))))"

text \<open>What the store alone answers for a short code, to compare the read path with: the
  error of the query if it throws, \<open>null\<close> when no row comes back or the first row has an
  \<open>expires_at\<close> before the clock, the \<open>original_url\<close> of the first row otherwise.\<close>

definition store_lookup :: "env \<Rightarrow> 'd db_client \<Rightarrow> string \<Rightarrow> 'd \<Rightarrow> error + js_value" where
  "store_lookup e db code d =
     (case fst (db SQL_SELECT_BY_CODE [JString code] d) of
        Inl err \<Rightarrow> Inl err
      | Inr result \<Rightarrow>
          (case rows result of
             None \<Rightarrow> Inl TypeError
           | Some [] \<Rightarrow> Inr JNull
           | Some (r # rs) \<Rightarrow>
               if truthy (row_get r ''expires_at'') \<and>
                  date_lt (new_Date e (row_get r ''expires_at'')) (now e)
               then Inr JNull
               else Inr (row_get r ''original_url'')))"

section \<open>The write path (services/url-service.js)\<close>

definition SQL_DEDUP :: string where
  "SQL_DEDUP =
     ''SELECT short_code FROM urls WHERE original_url = $1 AND expires_at IS NULL LIMIT 1''"

definition SQL_INSERT :: string where
  "SQL_INSERT =
     ''INSERT INTO urls (original_url, expires_at, short_code)'' @ [CHR 0x0A] @
     ''       VALUES ($1, $2, $3)'' @ [CHR 0x0A] @
     ''       RETURNING id''"

definition SQL_UPDATE_CODE :: string where
  "SQL_UPDATE_CODE = ''UPDATE urls SET short_code = $1 WHERE id = $2''"

definition SQL_CLEANUP :: string where
  "SQL_CLEANUP =
     ''DELETE FROM urls '' @ [CHR 0x0A] @
     ''       WHERE expires_at IS NOT NULL '' @ [CHR 0x0A] @
     ''       AND expires_at < NOW()'' @ [CHR 0x0A] @
     ''       RETURNING short_code''"

record short_url =
  shortCode :: js_value
  shortUrl :: string
  originalUrl :: string
  isNew :: bool

text \<open>Step 2 of \<open>createShortUrl\<close>: the lookup of an existing row, inside \<open>try\<close>. It gives the
  row found, if any, and the state of the store; whatever is thrown inside is caught.\<close>

definition dedup_lookup ::
  "'d db_client \<Rightarrow> string \<Rightarrow> 'd \<Rightarrow> row option \<times> 'd" where
  "dedup_lookup db url d =
     (case db SQL_DEDUP [JString url] d of
        (Inl err, d1) \<Rightarrow> (None, d1)
      | (Inr existing, d1) \<Rightarrow>
          (case rows existing of
             None \<Rightarrow> (None, d1)
           | Some rs \<Rightarrow> if length rs > 0 then (Some (rs ! 0), d1) else (None, d1)))"

text \<open>Steps 3 to 6: insert, derive the code from the id, store it, warm the cache.\<close>

definition insert_new ::
  "env \<Rightarrow> 'd db_client \<Rightarrow> 'c cache_client \<Rightarrow> string \<Rightarrow> js_value \<Rightarrow> 'd \<times> 'c \<Rightarrow>
   (error + short_url) \<times> 'd \<times> 'c" where
  "insert_new e db cache url options_expires_at s =
     (case s of (d, c) \<Rightarrow>
       (case db SQL_INSERT
               [JString url,
                if truthy options_expires_at then options_expires_at else JNull,
                JString ''TEMP''] d of
          (Inl err, d2) \<Rightarrow> (Inl err, d2, c)
        | (Inr result, d2) \<Rightarrow>
            (case rows result of
               None \<Rightarrow> (Inl TypeError, d2, c)
             | Some rs \<Rightarrow>
                 if length rs = 0 then (Inl TypeError, d2, c)
                 else
                   (let id = row_get (rs ! 0) ''id''
                    in case idToBase62 id of
                         Inl err \<Rightarrow> (Inl err, d2, c)
                       | Inr code \<Rightarrow>
                           (case db SQL_UPDATE_CODE [JString code, id] d2 of
                              (Inl err, d3) \<Rightarrow> (Inl err, d3, c)
                            | (Inr _, d3) \<Rightarrow>
                                (let c1 = (if cache_isReady cache c
                                           then snd (cache_set cache (JString code)
                                                       (JString url) config_redis_ttl c)
                                           else c)
                                 in (Inr \<lparr>shortCode = JString code,
                                          shortUrl = baseUrl e @ ''/'' @ code,
                                          originalUrl = url,
                                          isNew = True\<rparr>, d3, c1)))))))"

definition createShortUrl ::
  "env \<Rightarrow> 'd db_client \<Rightarrow> 'c cache_client \<Rightarrow> js_value \<Rightarrow> js_value \<Rightarrow> 'd \<times> 'c \<Rightarrow>
   (error + short_url) \<times> 'd \<times> 'c" where
  "createShortUrl e db cache input options_expires_at s =
     (case s of (d, c) \<Rightarrow>
       (case input of
          JString raw \<Rightarrow>
            if \<not> truthy input then (Inl UrlIsRequired, d, c)
            else
              (let url = js_trim raw
               in if \<not> isURL e url then (Inl InvalidUrlFormat, d, c)
                  else if length url > config_app_maxUrlLength then (Inl UrlTooLong, d, c)
                  else if \<not> truthy options_expires_at
                  then (case dedup_lookup db url d of
                          (Some r, d1) \<Rightarrow>
                            (Inr \<lparr>shortCode = row_get r ''short_code'',
                                  shortUrl = baseUrl e @ ''/'' @ template e (row_get r ''short_code''),
                                  originalUrl = url,
                                  isNew = False\<rparr>, d1, c)
                        | (None, d1) \<Rightarrow> insert_new e db cache url options_expires_at (d1, c))
                  else insert_new e db cache url options_expires_at (d, c))
        | _ \<Rightarrow> (Inl UrlIsRequired, d, c)))"

text \<open>\<open>cleanupExpiredUrls\<close>: the loop over the rows deleted removes each code from the cache,
  an error of the cache caught and logged.\<close>

definition cleanupExpiredUrls ::
  "'d db_client \<Rightarrow> 'c cache_client \<Rightarrow> 'd \<times> 'c \<Rightarrow> (error + nat option) \<times> 'd \<times> 'c" where
  "cleanupExpiredUrls db cache s =
     (case s of (d, c) \<Rightarrow>
       (case db SQL_CLEANUP [] d of
          (Inl err, d1) \<Rightarrow> (Inl err, d1, c)
        | (Inr result, d1) \<Rightarrow>
            (case rows result of
               None \<Rightarrow> (Inl TypeError, d1, c)
             | Some rs \<Rightarrow>
                 (Inr (rowCount result), d1,
                  foldl (\<lambda>c' r. snd (cache_del cache (row_get r ''short_code'') c')) c rs))))"

section \<open>The route POST /api/shorten (routes.js)\<close>

datatype http_body =
    ErrorMessage string
  | ThrownMessage error
  | Shortened short_url

record http_response =
  status :: nat
  body :: http_body

text \<open>The handler reads \<open>url\<close> and \<open>expires_at\<close> from the body of the request; whatever
  \<open>createShortUrl\<close> throws is answered with status 400 and the message of the error.\<close>

definition post_shorten ::
  "env \<Rightarrow> 'd db_client \<Rightarrow> 'c cache_client \<Rightarrow> js_value \<Rightarrow> js_value \<Rightarrow> 'd \<times> 'c \<Rightarrow>
   http_response \<times> 'd \<times> 'c" where
  "post_shorten e db cache body_url body_expires_at s =
     (if \<not> truthy body_url
      then (\<lparr>status = 400, body = ErrorMessage ''URL is required''\<rparr>, s)
      else if truthy body_expires_at \<and> new_Date e body_expires_at = None
      then (\<lparr>status = 400,
             body = ErrorMessage
               ''Invalid expires_at format. Use ISO 8601 format (e.g., 2024-12-31T23:59:59Z)''\<rparr>, s)
      else if truthy body_expires_at \<and> date_lt (new_Date e body_expires_at) (now e)
      then (\<lparr>status = 400, body = ErrorMessage ''expires_at must be in the future''\<rparr>, s)
      else
        (case createShortUrl e db cache body_url
                (if truthy body_expires_at then JDate (new_Date e body_expires_at) else JNull) s of
           (Inl err, s') \<Rightarrow> (\<lparr>status = 400, body = ThrownMessage err\<rparr>, s')
         | (Inr r, s') \<Rightarrow> (\<lparr>status = 201, body = Shortened r\<rparr>, s')))"


section \<open>A sample environment and sample states\<close>

text \<open>
  Used by the examples only. The clock stands at 1000 ms; the \<open>Date\<close> constructor is given on
  dates and on integer numbers; \<open>sample_isURL\<close> stands in for the validator package on the
  few addresses of the examples (a scheme of http or https and no blank inside).
\<close>

definition sample_isURL :: "string \<Rightarrow> bool" where
  "sample_isURL s =
     ((js_startsWith s ''http://'' \<or> js_startsWith s ''https://'') \<and> \<not> js_includes s '' '')"

definition sample_env :: env where
  "sample_env =
     \<lparr>now = 1000,
      new_Date = (\<lambda>v. case v of JDate t \<Rightarrow> t | JNumber q \<Rightarrow> Some \<lfloor>q\<rfloor> | _ \<Rightarrow> None),
      isURL = sample_isURL,
      ToString = (\<lambda>v. ''[value]''),
      baseUrl = ''http://localhost:3000''\<rparr>"

definition empty_db :: db_state where
  "empty_db = \<lparr>urls = [], currentId = 1\<rparr>"

definition ready_cache :: cache_state where
  "ready_cache = \<lparr>isReady = True, memoryCache = Map.empty\<rparr>"

text \<open>A cache client whose every operation throws.\<close>

definition failing_cache :: "cache_state cache_client" where
  "failing_cache =
     \<lparr>cache_isReady = (\<lambda>c. True),
      cache_get = (\<lambda>key c. (Inl (ClientError ''ECONNRESET''), c)),
      cache_set = (\<lambda>key v ex c. (Inl (ClientError ''ECONNRESET''), c)),
      cache_del = (\<lambda>key c. (Inl (ClientError ''ECONNRESET''), c))\<rparr>"

text \<open>A store client whose lookup of a duplicate throws and which otherwise is the client of
  the repository.\<close>

definition dedup_failing_db :: "env \<Rightarrow> db_state db_client" where
  "dedup_failing_db e sql params st =
     (if sql = SQL_DEDUP then (Inl (ClientError ''connection lost''), st)
      else mock_db e sql params st)"

text \<open>An entry with an address, an expiry and a code; the other fields do not matter.\<close>

definition sample_entry :: "nat \<Rightarrow> string \<Rightarrow> js_value \<Rightarrow> string \<Rightarrow> url_entry" where
  "sample_entry k url expiry code =
     \<lparr>entry_id = k, original_url = JString url, expires_at = expiry,
      short_code = JString code, click_count = 0, created_at = 0\<rparr>"

text \<open>A store with a record that never expires and one that expired at 500 ms.\<close>

definition sample_db :: db_state where
  "sample_db =
     \<lparr>urls = [(1, sample_entry 1 ''https://example.com/a'' JNull ''1''),
              (2, sample_entry 2 ''https://example.com/old'' (JDate (Some 500)) ''2'')],
      currentId = 3\<rparr>"

text \<open>A store where the same address has a record that expires at 5000 ms, inserted first,
  and one that never expires.\<close>

definition dup_db :: db_state where
  "dup_db =
     \<lparr>urls = [(1, sample_entry 1 ''https://example.com/a'' (JDate (Some 5000)) ''1''),
              (2, sample_entry 2 ''https://example.com/a'' JNull ''2'')],
      currentId = 3\<rparr>"

text \<open>The contract of the validator package the write path relies on: with
  \<open>require_protocol\<close> and \<open>protocols: ['http', 'https']\<close> an accepted address starts with one
  of the two schemes, in any case of the letters.\<close>

definition js_toLowerCase :: "string \<Rightarrow> string" where
  "js_toLowerCase s =
     map (\<lambda>c. let i = js_indexOf ''ABCDEFGHIJKLMNOPQRSTUVWXYZ'' c
              in if i < 0 then c else ''abcdefghijklmnopqrstuvwxyz'' ! nat i) s"

definition has_http_scheme :: "string \<Rightarrow> bool" where
  "has_http_scheme s =
     (js_startsWith (js_toLowerCase s) ''http://'' \<or> js_startsWith (js_toLowerCase s) ''https://'')"

definition requires_http_scheme :: "env \<Rightarrow> bool" where
  "requires_http_scheme e = (\<forall>s. isURL e s \<longrightarrow> has_http_scheme s)"

text \<open>The statement of \<open>cleanupExpiredUrls\<close> written on one line, with single blanks.\<close>

definition SQL_CLEANUP_ONE_LINE :: string where
  "SQL_CLEANUP_ONE_LINE =
     ''DELETE FROM urls WHERE expires_at IS NOT NULL AND expires_at < NOW() RETURNING short_code''"


text \<open>An address followed by 2048 blanks.\<close>

definition padded_url :: string where
  "padded_url = ''https://example.com/a'' @ replicate 2048 CHR '' ''"

text \<open>An address of 2068 characters.\<close>

definition long_url :: string where
  "long_url = ''https://example.com/'' @ replicate 2048 CHR ''a''"

section \<open>Verification of the codec\<close>

subsection \<open>String methods and the alphabet\<close>

lemma js_startsWith_single: "js_startsWith s [c] = (s \<noteq> [] \<and> hd s = c)"
  by (cases s) auto

lemma js_includes_single: "js_includes s [c] = (c \<in> set s)"
  by (induction s) (auto simp: js_startsWith_single)

lemma js_indexOf_nonneg: "js_indexOf s c \<ge> 0 \<longleftrightarrow> c \<in> set s"
  by (induction s) (auto simp: Let_def)

lemma js_indexOf_ge: "- 1 \<le> js_indexOf s c"
  by (induction s) (auto simp: Let_def)

lemma js_indexOf_nth:
  "distinct s \<Longrightarrow> i < length s \<Longrightarrow> js_indexOf s (s ! i) = int i"
proof (induction s arbitrary: i)
  case Nil
  then show ?case by simp
next
  case (Cons d s)
  show ?case
  proof (cases i)
    case 0
    then show ?thesis by simp
  next
    case (Suc j)
    with Cons.prems have j: "j < length s" and d: "d \<noteq> s ! j" by auto
    from Cons.IH [of j] Cons.prems j have "js_indexOf s (s ! j) = int j" by simp
    with Suc d show ?thesis by (simp add: Let_def)
  qed
qed

lemma js_indexOf_lt: "c \<in> set s \<Longrightarrow> js_indexOf s c < int (length s)"
  by (induction s) (auto simp: Let_def)

lemma alphabet_length: "length BASE62_ALPHABET = 62"
  by (simp add: BASE62_ALPHABET_def)

lemma alphabet_distinct: "distinct BASE62_ALPHABET"
  by (simp add: BASE62_ALPHABET_def)

lemma digitValue_nth: "d < 62 \<Longrightarrow> digitValue (BASE62_ALPHABET ! d) = int d"
  unfolding digitValue_def
  by (rule js_indexOf_nth [OF alphabet_distinct]) (simp add: alphabet_length)

subsection \<open>Rounding\<close>

lemma pow2_powi: "pow2 k = 2 powi k"
  by (simp add: pow2_def power_int_def field_simps)

lemma pow2_pos [simp]: "0 < pow2 k"
  by (simp add: pow2_powi)

lemma pow2_nonzero [simp]: "pow2 k \<noteq> 0"
  by (simp add: pow2_powi)

lemma pow2_nonneg [simp]: "0 \<le> pow2 k"
  by (simp add: pow2_powi)

lemma pow2_add: "pow2 (a + b) = pow2 a * pow2 b"
  by (simp add: pow2_powi power_int_add)

lemma pow2_nat: "0 \<le> k \<Longrightarrow> pow2 k = 2 ^ nat k"
  by (simp add: pow2_def)

lemma pow2_mono: "a \<le> b \<Longrightarrow> pow2 a \<le> pow2 b"
  by (simp add: pow2_powi power_int_increasing)

lemma round_even_upper: "of_int (round_even y) \<le> y + 1 / 2"
  unfolding round_even_def Let_def by (auto simp: not_less) linarith+

lemma round_even_lower: "y - 1 / 2 \<le> of_int (round_even y)"
  unfolding round_even_def Let_def by (auto simp: not_less) linarith+

lemma round_even_of_int [simp]: "round_even (of_int k) = k"
  by (simp add: round_even_def)

lemma round_even_ge: "of_int k \<le> y \<Longrightarrow> k \<le> round_even y"
  unfolding round_even_def Let_def by (auto simp: le_floor_iff) linarith+

lemma floor_log2_le: "1 \<le> x \<Longrightarrow> pow2 (floor_log2 x) \<le> x"
proof -
  assume x: "1 \<le> x"
  then have f: "0 < \<lfloor>x\<rfloor>" by simp
  from bitlen_bounds [OF f] have "2 ^ nat (bitlen \<lfloor>x\<rfloor> - 1) \<le> \<lfloor>x\<rfloor>" by simp
  then have "(of_int (2 ^ nat (bitlen \<lfloor>x\<rfloor> - 1)) :: rat) \<le> of_int \<lfloor>x\<rfloor>"
    by (simp only: of_int_le_iff)
  also have "\<dots> \<le> x" by simp
  finally have "(2::rat) ^ nat (bitlen \<lfloor>x\<rfloor> - 1) \<le> x" by simp
  moreover from f have "0 \<le> bitlen \<lfloor>x\<rfloor> - 1"
    using bitlen_eq_zero_iff [of "\<lfloor>x\<rfloor>"] bitlen_nonneg [of "\<lfloor>x\<rfloor>"] by linarith
  ultimately show ?thesis using x by (simp add: floor_log2_def pow2_nat)
qed

lemma floor_log2_nonneg: "1 \<le> x \<Longrightarrow> 0 \<le> floor_log2 x"
proof -
  assume x: "1 \<le> x"
  then have f: "0 < \<lfloor>x\<rfloor>" by simp
  then have "0 \<le> bitlen \<lfloor>x\<rfloor> - 1"
    using bitlen_eq_zero_iff [of "\<lfloor>x\<rfloor>"] bitlen_nonneg [of "\<lfloor>x\<rfloor>"] by linarith
  with x show ?thesis by (simp add: floor_log2_def)
qed

lemma floor_log2_small: "0 < x \<Longrightarrow> x < 1 \<Longrightarrow> floor_log2 x \<le> - 1"
proof -
  assume x: "0 < x" "x < 1"
  then have "1 < 1 / x" by simp
  then have "1 < \<lceil>1 / x\<rceil>" by (simp add: less_ceiling_iff)
  then have "0 < \<lceil>1 / x\<rceil> - 1" by simp
  then have "1 \<le> bitlen (\<lceil>1 / x\<rceil> - 1)"
    using bitlen_eq_zero_iff [of "\<lceil>1 / x\<rceil> - 1"] bitlen_nonneg [of "\<lceil>1 / x\<rceil> - 1"] by linarith
  with x show ?thesis by (simp add: floor_log2_def)
qed

lemma floor_log2_upper: "1 \<le> x \<Longrightarrow> x < 2 ^ w \<Longrightarrow> floor_log2 x \<le> int w - 1"
proof -
  assume x: "1 \<le> x" "x < 2 ^ w"
  from x have "\<lfloor>x\<rfloor> < 2 ^ w" by (simp add: floor_less_iff)
  then have "bitlen \<lfloor>x\<rfloor> \<le> int w" by (simp add: bitlen_le_iff_power)
  with x show ?thesis by (simp add: floor_log2_def)
qed

lemma round_double_pos:
  "0 < x \<Longrightarrow> round_double x =
     of_int (round_even (x / pow2 (max (floor_log2 x) (- 1022) - 52))) *
     pow2 (max (floor_log2 x) (- 1022) - 52)"
  by (simp add: round_double_def Let_def)

lemma round_double_error:
  assumes "0 < x"
  shows "\<bar>round_double x - x\<bar> \<le> pow2 (max (floor_log2 x) (- 1022) - 52) / 2"
proof -
  let ?p = "pow2 (max (floor_log2 x) (- 1022) - 52)"
  let ?r = "of_int (round_even (x / ?p)) :: rat"
  have p: "0 < ?p" by simp
  have "\<bar>?r - x / ?p\<bar> \<le> 1 / 2"
    using round_even_upper [of "x / ?p"] round_even_lower [of "x / ?p"] by linarith
  then have "\<bar>?r - x / ?p\<bar> * ?p \<le> 1 / 2 * ?p"
    using p by (simp only: mult_le_cancel_right_pos)
  moreover have "\<bar>?r - x / ?p\<bar> * ?p = \<bar>?r * ?p - x\<bar>"
  proof -
    have "\<bar>?r - x / ?p\<bar> * ?p = \<bar>(?r - x / ?p) * ?p\<bar>"
      using abs_of_pos [OF p] by (simp add: abs_mult)
    also have "(?r - x / ?p) * ?p = ?r * ?p - x"
      by (simp add: left_diff_distrib)
    finally show ?thesis .
  qed
  ultimately show ?thesis using assms by (simp add: round_double_pos)
qed

lemma round_double_exact:
  assumes "0 < x" "x / pow2 (max (floor_log2 x) (- 1022) - 52) = of_int k"
  shows "round_double x = x"
proof -
  let ?p = "pow2 (max (floor_log2 x) (- 1022) - 52)"
  have p: "0 < ?p" by simp
  from assms have "round_double x = of_int k * ?p"
    by (simp add: round_double_pos)
  also have "of_int k * ?p = x"
    using assms(2) by (simp add: field_simps)
  finally show ?thesis .
qed


lemma pow2_inverse: "1 / pow2 q = pow2 (- q)"
proof -
  have "pow2 q * pow2 (- q) = 1"
    using pow2_add [of q "- q"] by (simp add: pow2_def)
  then show ?thesis by (simp add: field_simps)
qed

lemma round_double_of_nat:
  assumes "k < 2 ^ 53"
  shows "round_double (of_nat k) = of_nat k"
proof (cases "k = 0")
  case True
  then show ?thesis by (simp add: round_double_def)
next
  case False
  let ?x = "of_nat k :: rat"
  from False have x: "1 \<le> ?x" by simp
  from assms have "?x < 2 ^ 53"
    by (metis of_nat_less_iff of_nat_numeral of_nat_power)
  with x have u: "floor_log2 ?x \<le> 52" using floor_log2_upper [of ?x 53] by simp
  from x have l: "0 \<le> floor_log2 ?x" by (rule floor_log2_nonneg)
  let ?q = "max (floor_log2 ?x) (- 1022) - 52"
  from l u have q: "?q = floor_log2 ?x - 52" "0 \<le> - ?q" by simp_all
  have "?x / pow2 ?q = ?x * pow2 (- ?q)"
    using pow2_inverse [of ?q] by (simp add: field_simps)
  also have "pow2 (- ?q) = 2 ^ nat (- ?q)" using q(2) by (rule pow2_nat)
  also have "?x * 2 ^ nat (- ?q) = of_int (int k * 2 ^ nat (- ?q))" by simp
  finally have "?x / pow2 ?q = of_int (int k * 2 ^ nat (- ?q))" .
  moreover from x have "0 < ?x" by simp
  ultimately show ?thesis by (rule round_double_exact [rotated])
qed

lemma round_double_nonneg: "0 \<le> x \<Longrightarrow> 0 \<le> round_double x"
proof (cases "x = 0")
  case True
  then show ?thesis by (simp add: round_double_def)
next
  case False
  assume "0 \<le> x"
  with False have x: "0 < x" by simp
  let ?p = "pow2 (max (floor_log2 x) (- 1022) - 52)"
  from x have "0 \<le> x / ?p" by (intro divide_nonneg_pos) simp_all
  then have "(0::int) \<le> round_even (x / ?p)"
    using round_even_ge [of 0 "x / ?p"] by simp
  then have "0 \<le> (of_int (round_even (x / ?p)) :: rat) * ?p"
    by (intro mult_nonneg_nonneg) simp_all
  with x show ?thesis by (simp add: round_double_pos)
qed

lemma ulp_le:
  assumes "1 / 62 \<le> x"
  shows "pow2 (max (floor_log2 x) (- 1022) - 52) \<le> x"
proof (cases "1 \<le> x")
  case True
  then have "0 \<le> floor_log2 x" by (rule floor_log2_nonneg)
  then have "pow2 (max (floor_log2 x) (- 1022) - 52) \<le> pow2 (floor_log2 x)"
    by (intro pow2_mono) simp
  also from True have "\<dots> \<le> x" by (rule floor_log2_le)
  finally show ?thesis .
next
  case False
  with assms have "0 < x" "x < 1" by simp_all
  then have "floor_log2 x \<le> - 1" by (rule floor_log2_small)
  then have "pow2 (max (floor_log2 x) (- 1022) - 52) \<le> pow2 (- 53)"
    by (intro pow2_mono) simp
  also have "\<dots> \<le> 1 / 62" by (simp add: pow2_def)
  also note assms
  finally show ?thesis .
qed

lemma step_exact:
  assumes "n < 2 ^ 53"
  shows "nat \<lfloor>round_double (of_nat n / 62)\<rfloor> = n div 62"
proof (cases "n mod 62 = 0")
  case True
  then have "(of_nat n / 62 :: rat) = of_nat (n div 62)"
    by (metis dvd_div_mult_self mod_0_imp_dvd nonzero_mult_div_cancel_right of_nat_mult
        of_nat_numeral zero_neq_numeral)
  moreover have "n div 62 < 2 ^ 53" using assms by (meson div_le_dividend le_less_trans)
  ultimately show ?thesis by (simp add: round_double_of_nat)
next
  case False
  let ?x = "of_nat n / 62 :: rat"
  let ?k = "n div 62" and ?r = "n mod 62"
  let ?p = "pow2 (max (floor_log2 ?x) (- 1022) - 52)"
  from False have r: "1 \<le> ?r" "?r \<le> 61" by simp_all
  then have n: "0 < n" by (cases n) simp_all
  have "n = ?k * 62 + ?r" by simp
  then have "(of_nat n :: rat) = of_nat ?k * 62 + of_nat ?r"
    by (metis of_nat_add of_nat_mult of_nat_numeral)
  then have xk: "?x = of_nat ?k + of_nat ?r / 62" by (simp add: field_simps)
  from r have lo: "of_nat ?k + 1 / 62 \<le> ?x" and hi: "?x \<le> of_nat ?k + 61 / 62"
    unfolding xk by simp_all
  from n have x: "0 < ?x" by simp
  have p: "?p \<le> 1 / 32"
  proof (cases "1 \<le> ?x")
    case True
    from assms have "(of_nat n :: rat) < 2 ^ 53"
      by (metis of_nat_less_iff of_nat_numeral of_nat_power)
    then have "?x < 2 ^ 48" by simp
    with True have "floor_log2 ?x \<le> 47" using floor_log2_upper [of ?x 48] by simp
    then have "?p \<le> pow2 (- 5)" by (intro pow2_mono) simp
    then show ?thesis by (simp add: pow2_def)
  next
    case False
    with x have "floor_log2 ?x \<le> - 1" by (intro floor_log2_small) simp_all
    then have "?p \<le> pow2 (- 53)" by (intro pow2_mono) simp
    also have "\<dots> \<le> 1 / 32" by (simp add: pow2_def)
    finally show ?thesis .
  qed
  from round_double_error [OF x] p have e: "\<bar>round_double ?x - ?x\<bar> \<le> 1 / 64" by simp
  from e have e': "?x - 1 / 64 \<le> round_double ?x" "round_double ?x \<le> ?x + 1 / 64"
    by linarith+
  from e'(1) lo have "of_nat ?k \<le> round_double ?x" by linarith
  then have "of_int (int ?k) \<le> round_double ?x" by simp
  moreover from e'(2) hi have "round_double ?x < of_nat ?k + 1" by linarith
  then have "round_double ?x < of_int (int ?k) + 1" by simp
  ultimately have "\<lfloor>round_double ?x\<rfloor> = int ?k" by (simp only: floor_unique)
  then show ?thesis by simp
qed

lemma round_double_ge_one:
  assumes "1 \<le> x"
  shows "1 \<le> round_double x"
proof -
  let ?e = "floor_log2 x"
  let ?p = "pow2 (max ?e (- 1022) - 52)"
  from assms have e: "0 \<le> ?e" by (rule floor_log2_nonneg)
  then have q: "max ?e (- 1022) - 52 = ?e - 52" by simp
  from assms have x: "0 < x" by simp
  have "pow2 52 * ?p = pow2 ?e" using pow2_add [of 52 "?e - 52"] by (simp add: q)
  also from assms have "\<dots> \<le> x" by (rule floor_log2_le)
  finally have "pow2 52 \<le> x / ?p" by (simp add: pos_le_divide_eq)
  then have "of_int (2 ^ 52) \<le> x / ?p" by (simp add: pow2_def)
  then have "2 ^ 52 \<le> round_even (x / ?p)" by (rule round_even_ge)
  then have "(of_int (2 ^ 52) :: rat) \<le> of_int (round_even (x / ?p))"
    by (simp only: of_int_le_iff)
  then have m: "of_int (2 ^ 52) * ?p \<le> of_int (round_even (x / ?p)) * ?p"
    by (simp only: mult_le_cancel_right_pos pow2_pos)
  have "1 \<le> pow2 ?e" using pow2_mono [OF e] by (simp add: pow2_def)
  also have "pow2 ?e = of_int (2 ^ 52) * ?p"
    using pow2_add [of 52 "?e - 52"] by (simp add: q pow2_def)
  also note m
  finally have "1 \<le> of_int (round_even (x / ?p)) * ?p" .
  with x show ?thesis by (simp only: round_double_pos)
qed


lemma double_of_nat: "k < 2 ^ 53 \<Longrightarrow> double_of (of_nat k) = JNumber (of_nat k)"
proof -
  assume k: "k < 2 ^ 53"
  then have "(of_nat k :: rat) < of_nat (2 ^ 53)"
    by (simp only: of_nat_less_iff)
  then have "(of_nat k :: rat) < 2 ^ 1024"
    by simp
  moreover have "- (2 ^ 1024) < (of_nat k :: rat)"
    by (rule less_le_trans [of _ 0]) simp_all
  ultimately show ?thesis
    using k by (simp add: double_of_def round_double_of_nat Let_def not_le)
qed

subsection \<open>The encoding loop\<close>

text \<open>Up to \<open>2^53\<close> the rounded quotient has the integer part of the exact one.\<close>

lemma idToBase62_loop_exact:
  "n < 2 ^ 53 \<Longrightarrow>
   idToBase62_loop n acc =
     (if n > 0 then idToBase62_loop (n div 62) (BASE62_ALPHABET ! (n mod 62) # acc) else acc)"
  by (subst idToBase62_loop.simps) (simp add: BASE_def step_exact)

lemma step_positive:
  assumes "62 \<le> n"
  shows "0 < nat \<lfloor>round_double (of_nat n / 62)\<rfloor>"
proof -
  from assms have "(of_nat 62 :: rat) \<le> of_nat n"
    by (simp only: of_nat_le_iff)
  then have "(1 :: rat) \<le> of_nat n / 62"
    by simp
  then have "1 \<le> round_double (of_nat n / 62)"
    by (rule round_double_ge_one)
  then have "1 \<le> \<lfloor>round_double (of_nat n / 62)\<rfloor>"
    by (simp add: le_floor_iff)
  then show ?thesis
    by simp
qed

lemma loop_accumulate:
  "n < 2 ^ 53 \<Longrightarrow>
   foldl (\<lambda>result c. result * 62 + digitValue c) 0 (idToBase62_loop n acc) =
   foldl (\<lambda>result c. result * 62 + digitValue c) (int n) acc"
proof (induction n arbitrary: acc rule: less_induct)
  case (less n)
  show ?case
  proof (cases "n > 0")
    case True
    then have d: "n div 62 < n"
      by simp
    with less.prems have b: "n div 62 < 2 ^ 53"
      by simp
    have "int (n div 62) * 62 + int (n mod 62) = int n"
      by (metis mult.commute of_nat_add of_nat_mult of_nat_numeral div_mult_mod_eq)
    with True less.IH [OF d b] less.prems show ?thesis
      by (simp add: idToBase62_loop_exact digitValue_nth)
  next
    case False
    with less.prems show ?thesis
      by (simp add: idToBase62_loop_exact)
  qed
qed

lemma loop_chars:
  "set acc \<subseteq> set BASE62_ALPHABET \<Longrightarrow> set (idToBase62_loop n acc) \<subseteq> set BASE62_ALPHABET"
proof (induction n acc rule: idToBase62_loop.induct)
  case (1 num result)
  show ?case
  proof (cases "num > 0")
    case True
    have "BASE62_ALPHABET ! (num mod 62) \<in> set BASE62_ALPHABET"
      by (rule nth_mem) (simp add: alphabet_length)
    with True 1 show ?thesis
      by (subst idToBase62_loop.simps) (simp add: BASE_def)
  next
    case False
    with 1 show ?thesis
      by (subst idToBase62_loop.simps) simp
  qed
qed

text \<open>The loop ends on a number below 62 that is not 0, whose digit is the first of the
  result.\<close>

lemma loop_first:
  "n > 0 \<Longrightarrow> \<exists>k s. 0 < k \<and> k < 62 \<and> idToBase62_loop n acc = BASE62_ALPHABET ! k # s"
proof (induction n acc rule: idToBase62_loop.induct)
  case (1 num result)
  let ?next = "nat \<lfloor>round_double (of_nat num / of_nat BASE)\<rfloor>"
  show ?case
  proof (cases "?next > 0")
    case True
    with 1 show ?thesis
      by (subst idToBase62_loop.simps) simp
  next
    case False
    then have "\<not> 62 \<le> num"
      using step_positive [of num] by (auto simp: BASE_def)
    with 1(2) have k: "0 < num mod 62" "num mod 62 < 62"
      by simp_all
    from False have "idToBase62_loop ?next (BASE62_ALPHABET ! (num mod BASE) # result) =
        BASE62_ALPHABET ! (num mod BASE) # result"
      by (subst idToBase62_loop.simps) simp
    with 1(2) k show ?thesis
      by (subst idToBase62_loop.simps) (auto simp: BASE_def)
  qed
qed

lemma loop_nonempty: "n > 0 \<Longrightarrow> idToBase62_loop n acc \<noteq> []"
  using loop_first [of n acc] by auto

lemma loop_hd: "n > 0 \<Longrightarrow> hd (idToBase62_loop n acc) \<noteq> CHR ''0''"
proof -
  assume "n > 0"
  then obtain k s where k: "0 < k" "k < 62" "idToBase62_loop n acc = BASE62_ALPHABET ! k # s"
    using loop_first [of n acc] by blast
  have z: "CHR ''0'' = BASE62_ALPHABET ! 0"
    by (simp add: BASE62_ALPHABET_def)
  have "BASE62_ALPHABET ! k \<noteq> BASE62_ALPHABET ! 0"
    using k alphabet_distinct alphabet_length by (simp add: nth_eq_iff_index_eq)
  with k z show ?thesis
    by simp
qed

subsection \<open>The decoding loops\<close>

lemma validate_ok: "set s \<subseteq> set BASE62_ALPHABET \<Longrightarrow> base62ToId_validate s = Inr ()"
  by (induction s) (auto simp: js_includes_single)

lemma validate_bad:
  "\<not> set s \<subseteq> set BASE62_ALPHABET \<Longrightarrow> \<exists>c. c \<in> set s \<and> c \<notin> set BASE62_ALPHABET \<and> base62ToId_validate s = Inl (InvalidBase62Character c)"
  by (induction s) (auto simp: js_includes_single)

lemma decode_loop_foldl:
  "base62ToId_loop str i r =
     foldl (\<lambda>result c. js_plus (js_times result 62) (of_int (digitValue c))) r (drop i str)"
proof (induction str i r rule: base62ToId_loop.induct)
  case (1 str i result)
  show ?case
  proof (cases "i < length str")
    case True
    then have "drop i str = str ! i # drop (Suc i) str"
      by (simp add: Cons_nth_drop_Suc)
    with True 1 show ?thesis
      by (subst base62ToId_loop.simps) (simp add: BASE_def digitValue_def)
  next
    case False
    then show ?thesis
      by (subst base62ToId_loop.simps) simp
  qed
qed

lemma digitValue_range:
  "c \<in> set BASE62_ALPHABET \<Longrightarrow> 0 \<le> digitValue c \<and> digitValue c < 62"
  unfolding digitValue_def
  using js_indexOf_nonneg [of BASE62_ALPHABET c] js_indexOf_lt [of c BASE62_ALPHABET]
  by (simp add: alphabet_length)

lemma foldl_accumulate_ge:
  "set s \<subseteq> set BASE62_ALPHABET \<Longrightarrow> 0 \<le> r \<Longrightarrow>
   r \<le> foldl (\<lambda>result c. result * 62 + digitValue c) r s"
proof (induction s arbitrary: r)
  case Nil
  then show ?case
    by simp
next
  case (Cons c s)
  from Cons.prems have d: "0 \<le> digitValue c"
    using digitValue_range [of c] by simp
  with Cons.prems have "0 \<le> r * 62 + digitValue c"
    by simp
  with Cons.IH [of "r * 62 + digitValue c"] Cons.prems
  have "r * 62 + digitValue c \<le> foldl (\<lambda>result c. result * 62 + digitValue c) r (c # s)"
    by simp
  with d Cons.prems(2) show ?case
    by linarith
qed

text \<open>As long as the exact accumulation stays below \<open>2^53\<close>, no product and no sum is
  rounded.\<close>

lemma foldl_double_exact:
  "set s \<subseteq> set BASE62_ALPHABET \<Longrightarrow>
   foldl (\<lambda>result c. result * 62 + digitValue c) (int r) s < 2 ^ 53 \<Longrightarrow>
   foldl (\<lambda>result c. js_plus (js_times result 62) (of_int (digitValue c)))
     (JNumber (of_nat r)) s =
   JNumber (of_int (foldl (\<lambda>result c. result * 62 + digitValue c) (int r) s))"
proof (induction s arbitrary: r)
  case Nil
  then show ?case
    by simp
next
  case (Cons c s)
  from Cons.prems have d: "0 \<le> digitValue c"
    using digitValue_range [of c] by simp
  let ?v = "nat (digitValue c)"
  from d have v: "digitValue c = int ?v"
    by simp
  have e: "int r * 62 + digitValue c = int (r * 62 + ?v)"
    using d by simp
  from Cons.prems have "int (r * 62 + ?v) \<le>
      foldl (\<lambda>result c. result * 62 + digitValue c) (int (r * 62 + ?v)) s"
    by (intro foldl_accumulate_ge) simp_all
  also from Cons.prems have "\<dots> < 2 ^ 53"
    by (simp add: e)
  finally have "int (r * 62 + ?v) < int (2 ^ 53)"
    by simp
  then have b: "r * 62 + ?v < 2 ^ 53"
    by (simp only: of_nat_less_iff)
  then have b': "r * 62 < 2 ^ 53"
    by simp
  have "js_times (JNumber (of_nat r)) 62 = double_of (of_nat (r * 62))"
    by (simp add: js_times_def)
  also have "\<dots> = JNumber (of_nat (r * 62))"
    using b' by (rule double_of_nat)
  finally have t: "js_times (JNumber (of_nat r)) 62 = JNumber (of_nat (r * 62))" .
  have "js_plus (JNumber (of_nat (r * 62))) (of_int (digitValue c)) =
        double_of (of_nat (r * 62 + ?v))"
    by (subst v) (simp add: js_plus_def)
  also have "\<dots> = JNumber (of_nat (r * 62 + ?v))"
    using b by (rule double_of_nat)
  finally have p: "js_plus (JNumber (of_nat (r * 62))) (of_int (digitValue c)) =
        JNumber (of_nat (r * 62 + ?v))" .
  from Cons.prems have "set s \<subseteq> set BASE62_ALPHABET"
    and "foldl (\<lambda>result c. result * 62 + digitValue c) (int (r * 62 + ?v)) s < 2 ^ 53"
    by (simp_all add: e)
  from Cons.IH [OF this] show ?case
    by (simp only: foldl_Cons t p e)
qed

lemma accumulate_double_exact:
  assumes "set s \<subseteq> set BASE62_ALPHABET" "accumulate s < 2 ^ 53"
  shows "accumulate_double s = JNumber (of_int (accumulate s))"
  using foldl_double_exact [of s 0] assms by (simp add: accumulate_double_def accumulate_def)

lemma positional_snoc:
  "positional_value (s @ [c]) = positional_value s * 62 + digitValue c"
proof -
  have "(\<Sum>i < length s. digitValue ((s @ [c]) ! i) * 62 ^ (length s - i)) =
        (\<Sum>i < length s. (digitValue (s ! i) * 62 ^ (length s - 1 - i)) * 62)"
  proof (rule sum.cong)
    fix i assume "i \<in> {..<length s}"
    then have i: "i < length s" by simp
    then have "length s - i = Suc (length s - 1 - i)" by simp
    with i show "digitValue ((s @ [c]) ! i) * 62 ^ (length s - i) =
             digitValue (s ! i) * 62 ^ (length s - 1 - i) * 62"
      by (simp add: nth_append)
  qed simp
  then show ?thesis
    by (simp add: positional_value_def sum_distrib_right)
qed

lemma positional_accumulate: "positional_value s = accumulate s"
  by (induction s rule: rev_induct) (simp_all add: positional_snoc accumulate_def, simp add: positional_value_def)


lemma isInteger_iff: "Number_isInteger (JNumber q) \<longleftrightarrow> q \<in> \<int>"
  by (auto simp: Number_isInteger_def Ints_def)



lemma idToBase62_nat:
  "idToBase62 (JNumber (of_nat n)) =
     Inr (if n = 0 then [BASE62_ALPHABET ! 0] else idToBase62_loop n [])"
  by (simp add: idToBase62_def isInteger_iff)

lemma base62ToId_alphabet:
  assumes "s \<noteq> []" "set s \<subseteq> set BASE62_ALPHABET"
  shows "base62ToId (JString s) = Inr (accumulate_double s)"
proof -
  from assms(2) have "base62ToId_validate s = Inr ()"
    by (rule validate_ok)
  moreover have "base62ToId_loop s 0 (JNumber 0) = accumulate_double s"
    by (simp only: decode_loop_foldl accumulate_double_def drop_0)
  ultimately show ?thesis
    using assms(1) by (simp add: base62ToId_def)
qed

text \<open>The codes of the first ids.\<close>

lemma idToBase62_loop_small:
  "idToBase62_loop 1 [] = ''1''" "idToBase62_loop 2 [] = ''2''" "idToBase62_loop 3 [] = ''3''"
  "idToBase62_loop (Suc 0) [] = ''1''"
  by (simp_all add: idToBase62_loop_exact BASE62_ALPHABET_def)

subsection \<open>Evaluation on given numbers\<close>

lemma round_double_zero [simp]: "round_double 0 = 0"
  by (simp add: round_double_def)

lemma round_double_one [simp]: "round_double 1 = 1"
  using round_double_of_nat [of 1] by simp

lemma round_double_numeral:
  "(numeral k :: nat) < 2 ^ 53 \<Longrightarrow> round_double (numeral k) = numeral k"
  using round_double_of_nat [of "numeral k"] by simp

lemma idToBase62_loop_step:
  assumes "0 < n" "of_nat n = x" "\<lfloor>round_double (x / 62)\<rfloor> = k"
  shows "idToBase62_loop n acc = idToBase62_loop (nat k) (BASE62_ALPHABET ! (n mod 62) # acc)"
  using assms by (subst idToBase62_loop.simps) (auto simp: BASE_def)

text \<open>The roundings that the examples beyond \<open>2^53\<close> go through.\<close>

lemma round_double_examples:
  "round_double 18014398509482036 = 18014398509482036"
  "\<lfloor>round_double (18014398509482036 / 62)\<rfloor> = 290554814669065"
  "round_double 18014398509482030 = 18014398509482032"
  "round_double 18014398509482038 = 18014398509482040"
  "round_double 35878201422896940 = 35878201422896940"
  "\<lfloor>round_double (35878201422896940 / 62)\<rfloor> = 578680668111241"
  "round_double 13537086546263490 = 13537086546263490"
  "round_double 13537086546263551 = 13537086546263552"
  by code_simp+

section \<open>The claims about the codec\<close>

text \<open>
  Claim C1 as stated fails. Both functions compute in doubles. The integer \<open>2^54 + 52\<close> is a
  double; it is encoded as \<open>1kvnArUVj6\<close>, and decoding that string rounds the last product
  and the last sum and returns \<open>2^54 + 56\<close>.
\<close>

theorem roundtrip_rounds_beyond_2_54:
  "round_double 18014398509482036 = 18014398509482036 \<and>
   idToBase62 (JNumber 18014398509482036) = Inr ''1kvnArUVj6'' \<and>
   base62ToId (JString ''1kvnArUVj6'') = Inr (JNumber 18014398509482040)"
proof -
  have "idToBase62_loop 18014398509482036 [] =
        idToBase62_loop 290554814669065 [BASE62_ALPHABET ! 6]"
    using idToBase62_loop_step [of 18014398509482036 18014398509482036 290554814669065 "[]",
        OF _ _ round_double_examples(2)]
    by simp
  then have a: "idToBase62 (JNumber 18014398509482036) = Inr ''1kvnArUVj6''"
    by (simp add: idToBase62_def isInteger_iff idToBase62_loop_exact BASE62_ALPHABET_def)
  have "base62ToId (JString ''1kvnArUVj6'') = Inr (accumulate_double ''1kvnArUVj6'')"
    by (rule base62ToId_alphabet) (simp_all add: BASE62_ALPHABET_def)
  also have "accumulate_double ''1kvnArUVj6'' = JNumber 18014398509482040"
    by (simp add: accumulate_double_def js_times_def js_plus_def digitValue_def
          BASE62_ALPHABET_def double_of_def Let_def round_double_numeral round_double_examples)
  finally show ?thesis
    using a by (simp add: round_double_examples)
qed

text \<open>
  Claim C1, amended. For every integer \<open>n\<close> from 0 to \<open>2^53 - 1\<close>, the integers that doubles
  count one by one, \<open>idToBase62\<close> returns a string and \<open>base62ToId\<close> of that string returns
  \<open>n\<close>: there decoding undoes encoding.
\<close>

theorem base62ToId_idToBase62:
  "n < 2 ^ 53 \<Longrightarrow>
   \<exists>s. idToBase62 (JNumber (of_nat n)) = Inr s \<and>
       base62ToId (JString s) = Inr (JNumber (of_nat n))"
proof (cases "n = 0")
  case True
  have "accumulate_double [BASE62_ALPHABET ! 0] = JNumber 0"
    using accumulate_double_exact [of "[BASE62_ALPHABET ! 0]"]
    by (simp add: accumulate_def digitValue_def BASE62_ALPHABET_def)
  then have "base62ToId (JString [BASE62_ALPHABET ! 0]) = Inr (JNumber 0)"
    using base62ToId_alphabet [of "[BASE62_ALPHABET ! 0]"] by (simp add: BASE62_ALPHABET_def)
  with True idToBase62_nat [of 0] show ?thesis
    by simp
next
  case False
  assume n: "n < 2 ^ 53"
  let ?s = "idToBase62_loop n []"
  from False have ne: "?s \<noteq> []"
    by (simp add: loop_nonempty)
  have sub: "set ?s \<subseteq> set BASE62_ALPHABET"
    by (rule loop_chars) simp
  from n have a: "accumulate ?s = int n"
    unfolding accumulate_def by (simp add: loop_accumulate)
  from n have "int n < int (2 ^ 53)"
    by (simp only: of_nat_less_iff)
  with a have "accumulate ?s < 2 ^ 53"
    by simp
  with sub have "accumulate_double ?s = JNumber (of_int (accumulate ?s))"
    by (rule accumulate_double_exact)
  with a ne sub have "base62ToId (JString ?s) = Inr (JNumber (of_nat n))"
    by (simp add: base62ToId_alphabet)
  with False show ?thesis
    by (simp add: idToBase62_nat)
qed

theorem base62ToId_idToBase62_witness:
  "(1234567890 :: nat) < 2 ^ 53 \<and>
   idToBase62 (JNumber 1234567890) = Inr ''1ly7vk'' \<and>
   base62ToId (JString ''1ly7vk'') = Inr (JNumber 1234567890)"
proof -
  have b: "(1234567890 :: nat) < 2 ^ 53"
    by simp
  have "idToBase62 (JNumber 1234567890) = Inr ''1ly7vk''"
    by (simp add: idToBase62_def isInteger_iff idToBase62_loop_exact BASE62_ALPHABET_def)
  with base62ToId_idToBase62 [OF b] b show ?thesis
    by simp
qed

text \<open>
  Claim C7 as stated fails. The quotient \<open>num / 62\<close> is rounded to a double before
  \<open>Math.floor\<close>: for the double \<open>35878201422896940\<close> the first quotient rounds up to the next
  integer, and the string returned is the positional notation of \<open>35878201422897002\<close>.
\<close>

theorem idToBase62_rounds_quotient:
  "round_double 35878201422896940 = 35878201422896940 \<and>
   idToBase62 (JNumber 35878201422896940) = Inr ''2EjZR43WxY'' \<and>
   positional_value ''2EjZR43WxY'' = 35878201422897002"
proof -
  have "idToBase62_loop 35878201422896940 [] =
        idToBase62_loop 578680668111241 [BASE62_ALPHABET ! 60]"
    using idToBase62_loop_step [of 35878201422896940 35878201422896940 578680668111241 "[]",
        OF _ _ round_double_examples(6)]
    by simp
  then have "idToBase62 (JNumber 35878201422896940) = Inr ''2EjZR43WxY''"
    by (simp add: idToBase62_def isInteger_iff idToBase62_loop_exact BASE62_ALPHABET_def)
  moreover have "positional_value ''2EjZR43WxY'' = 35878201422897002"
    by (simp add: positional_accumulate accumulate_def digitValue_def BASE62_ALPHABET_def)
  ultimately show ?thesis
    by (simp add: round_double_examples)
qed

text \<open>
  Claim C7, amended. The alphabet is the digits, then the lowercase, then the uppercase
  letters; 0 gives \<open>"0"\<close>, 61 gives \<open>"Z"\<close>, 62 gives \<open>"10"\<close>. For every integer \<open>n > 0\<close> the
  result is a non-empty string of alphabet symbols whose first symbol is not the zero symbol,
  and for \<open>n\<close> up to \<open>2^53 - 1\<close> it is the base-62 positional notation of \<open>n\<close>, most
  significant digit first.
\<close>

theorem idToBase62_positional:
  "idToBase62 (JNumber 0) = Inr ''0'' \<and>
   idToBase62 (JNumber 61) = Inr ''Z'' \<and>
   idToBase62 (JNumber 62) = Inr ''10'' \<and>
   map digitValue ''09azAZ'' = [0, 9, 10, 35, 36, 61] \<and>
   (n > 0 \<longrightarrow>
     (\<exists>s. idToBase62 (JNumber (of_nat n)) = Inr s \<and> s \<noteq> [] \<and> hd s \<noteq> CHR ''0'' \<and>
          set s \<subseteq> set BASE62_ALPHABET \<and>
          (n < 2 ^ 53 \<longrightarrow> positional_value s = int n)))"
proof -
  have a: "idToBase62 (JNumber 0) = Inr ''0''"
    by (simp add: idToBase62_def isInteger_iff BASE62_ALPHABET_def)
  have b: "idToBase62 (JNumber 61) = Inr ''Z''"
    by (simp add: idToBase62_def isInteger_iff idToBase62_loop_exact BASE62_ALPHABET_def)
  have c: "idToBase62 (JNumber 62) = Inr ''10''"
    by (simp add: idToBase62_def isInteger_iff idToBase62_loop_exact BASE62_ALPHABET_def)
  have d: "map digitValue ''09azAZ'' = [0, 9, 10, 35, 36, 61]"
    by (simp add: digitValue_def BASE62_ALPHABET_def)
  have e: "\<exists>s. idToBase62 (JNumber (of_nat n)) = Inr s \<and> s \<noteq> [] \<and> hd s \<noteq> CHR ''0'' \<and>
          set s \<subseteq> set BASE62_ALPHABET \<and> (n < 2 ^ 53 \<longrightarrow> positional_value s = int n)"
    if "n > 0"
  proof -
    let ?s = "idToBase62_loop n []"
    have "set ?s \<subseteq> set BASE62_ALPHABET"
      by (rule loop_chars) simp
    moreover have "positional_value ?s = int n" if "n < 2 ^ 53"
      using that by (simp add: positional_accumulate accumulate_def loop_accumulate)
    ultimately show ?thesis
      using \<open>n > 0\<close> by (simp add: idToBase62_nat loop_nonempty loop_hd)
  qed
  from a b c d e show ?thesis
    by blast
qed

theorem idToBase62_positional_witness:
  "(3843 :: nat) > 0 \<and> (3843 :: nat) < 2 ^ 53 \<and>
   idToBase62 (JNumber 3843) = Inr ''ZZ'' \<and> hd ''ZZ'' \<noteq> CHR ''0'' \<and>
   positional_value ''ZZ'' = 3843"
proof -
  have "idToBase62 (JNumber 3843) = Inr ''ZZ''"
    by (simp add: idToBase62_def isInteger_iff idToBase62_loop_exact BASE62_ALPHABET_def)
  with idToBase62_positional [of 3843] show ?thesis
    by simp
qed

text \<open>
  Claim C8 as stated fails. The accumulation is computed in doubles: \<open>ZZZZZZZZZ\<close>
  accumulates to \<open>62^9 - 1 = 13537086546263551\<close>, which is not a double, and the function
  returns \<open>13537086546263552\<close>.
\<close>

theorem base62ToId_rounds_sum:
  "accumulate ''ZZZZZZZZZ'' = 13537086546263551 \<and>
   round_double 13537086546263551 \<noteq> 13537086546263551 \<and>
   base62ToId (JString ''ZZZZZZZZZ'') = Inr (JNumber 13537086546263552)"
proof -
  have "accumulate ''ZZZZZZZZZ'' = 13537086546263551"
    by (simp add: accumulate_def digitValue_def BASE62_ALPHABET_def)
  moreover have "base62ToId (JString ''ZZZZZZZZZ'') = Inr (accumulate_double ''ZZZZZZZZZ'')"
    by (rule base62ToId_alphabet) (simp_all add: BASE62_ALPHABET_def)
  moreover have "accumulate_double ''ZZZZZZZZZ'' = JNumber 13537086546263552"
    by (simp add: accumulate_double_def js_times_def js_plus_def digitValue_def
          BASE62_ALPHABET_def double_of_def Let_def round_double_numeral round_double_examples)
  ultimately show ?thesis
    by (simp add: round_double_examples)
qed

text \<open>
  Claim C8, amended. \<open>base62ToId\<close> throws on the empty string and on every string with a
  character outside the alphabet (naming such a character); on a non-empty string of alphabet
  characters it does not throw and returns the accumulation \<open>result = result * 62 + digitValue\<close>
  from left to right computed in doubles, which is the exact accumulation whenever that one is
  below \<open>2^53\<close>.
\<close>

theorem base62ToId_accumulates:
  "base62ToId (JString []) = Inl InputMustBeNonEmptyString \<and>
   (\<not> set s \<subseteq> set BASE62_ALPHABET \<longrightarrow>
      (\<exists>c. c \<in> set s \<and> c \<notin> set BASE62_ALPHABET \<and>
           base62ToId (JString s) = Inl (InvalidBase62Character c))) \<and>
   (s \<noteq> [] \<and> set s \<subseteq> set BASE62_ALPHABET \<longrightarrow>
      base62ToId (JString s) = Inr (accumulate_double s) \<and>
      (accumulate s < 2 ^ 53 \<longrightarrow>
         base62ToId (JString s) = Inr (JNumber (of_int (accumulate s)))))"
proof (intro conjI impI)
  show "base62ToId (JString []) = Inl InputMustBeNonEmptyString"
    by (simp add: base62ToId_def)
next
  assume bad: "\<not> set s \<subseteq> set BASE62_ALPHABET"
  then have "s \<noteq> []"
    by auto
  moreover from validate_bad [OF bad] obtain c where
    "c \<in> set s" "c \<notin> set BASE62_ALPHABET"
    "base62ToId_validate s = Inl (InvalidBase62Character c)"
    by blast
  ultimately show "\<exists>c. c \<in> set s \<and> c \<notin> set BASE62_ALPHABET \<and>
           base62ToId (JString s) = Inl (InvalidBase62Character c)"
    by (auto simp: base62ToId_def)
next
  assume "s \<noteq> [] \<and> set s \<subseteq> set BASE62_ALPHABET"
  then show "base62ToId (JString s) = Inr (accumulate_double s)"
    by (simp add: base62ToId_alphabet)
next
  assume "s \<noteq> [] \<and> set s \<subseteq> set BASE62_ALPHABET" and "accumulate s < 2 ^ 53"
  then show "base62ToId (JString s) = Inr (JNumber (of_int (accumulate s)))"
    by (simp add: base62ToId_alphabet accumulate_double_exact)
qed

theorem base62ToId_accumulates_witness:
  "base62ToId (JString ''abc!'') = Inl (InvalidBase62Character CHR ''!'') \<and>
   base62ToId (JString ''Zz9'') = Inr (JNumber 236663) \<and> accumulate ''Zz9'' = 236663"
proof -
  have a: "\<not> set ''abc!'' \<subseteq> set BASE62_ALPHABET"
    by (simp add: BASE62_ALPHABET_def)
  have b: "''Zz9'' \<noteq> [] \<and> set ''Zz9'' \<subseteq> set BASE62_ALPHABET"
    by (simp add: BASE62_ALPHABET_def)
  have c: "accumulate ''Zz9'' = 236663"
    by (simp add: accumulate_def digitValue_def BASE62_ALPHABET_def)
  have d: "c \<in> set ''abc!'' \<Longrightarrow> c \<notin> set BASE62_ALPHABET \<Longrightarrow> c = CHR ''!''" for c
    by (simp add: BASE62_ALPHABET_def)
  from base62ToId_accumulates [of "''abc!''"] a obtain c where
    "c \<in> set ''abc!''" "c \<notin> set BASE62_ALPHABET"
    "base62ToId (JString ''abc!'') = Inl (InvalidBase62Character c)"
    by blast
  with d [of c] have "base62ToId (JString ''abc!'') = Inl (InvalidBase62Character CHR ''!'')"
    by simp
  moreover from base62ToId_accumulates [of "''Zz9''"] b
  have "accumulate ''Zz9'' < 2 ^ 53 \<longrightarrow>
        base62ToId (JString ''Zz9'') = Inr (JNumber (of_int (accumulate ''Zz9'')))"
    by blast
  with c have "base62ToId (JString ''Zz9'') = Inr (JNumber 236663)"
    by simp
  ultimately show ?thesis
    using c by simp
qed

text \<open>
  Claim C10. Outside the documented domain the codec throws: \<open>idToBase62\<close> on every negative
  number, on every number that is not an integer and on every value that is not a number
  (a string among them), \<open>base62ToId\<close> on every value that is not a string.
\<close>

theorem codec_rejects_outside_domain:
  "(q < 0 \<longrightarrow> idToBase62 (JNumber q) = Inl IdMustBePositiveInteger) \<and>
   (q \<notin> \<int> \<longrightarrow> idToBase62 (JNumber q) = Inl IdMustBePositiveInteger) \<and>
   ((\<forall>r. v \<noteq> JNumber r) \<longrightarrow> idToBase62 v = Inl IdMustBePositiveInteger) \<and>
   ((\<forall>s. w \<noteq> JString s) \<longrightarrow> base62ToId w = Inl InputMustBeNonEmptyString)"
proof (intro conjI impI)
  show "idToBase62 (JNumber q) = Inl IdMustBePositiveInteger" if "q < 0"
    using that by (simp add: idToBase62_def)
  show "idToBase62 (JNumber q) = Inl IdMustBePositiveInteger" if "q \<notin> \<int>"
    using that by (simp add: idToBase62_def isInteger_iff)
  show "idToBase62 v = Inl IdMustBePositiveInteger" if "\<forall>r. v \<noteq> JNumber r"
    using that by (cases v) (simp_all add: idToBase62_def)
  show "base62ToId w = Inl InputMustBeNonEmptyString" if "\<forall>s. w \<noteq> JString s"
    using that by (cases w) (simp_all add: base62ToId_def)
qed

theorem codec_rejects_outside_domain_witness:
  "idToBase62 (JNumber (- 1)) = Inl IdMustBePositiveInteger \<and>
   idToBase62 (JNumber (3 / 2)) = Inl IdMustBePositiveInteger \<and>
   idToBase62 (JString ''123'') = Inl IdMustBePositiveInteger \<and>
   base62ToId (JNumber 123) = Inl InputMustBeNonEmptyString"
proof -
  have "(- 1 :: rat) < 0" "(3 / 2 :: rat) \<notin> \<int>" by simp_all
  with codec_rejects_outside_domain [of "- 1" "JString ''123''" "JNumber 123"] codec_rejects_outside_domain [of "3 / 2" JNull JNull]
  show ?thesis by simp
qed

section \<open>The store client on the statements of the services\<close>

text \<open>Which branch of \<open>query\<close> each statement of the services takes is decided by
  evaluating the substring tests on its text.\<close>

lemma js_strict_equals_JString [simp]: "js_strict_equals a (JString s) = (a = JString s)"
  by (cases a) auto

lemma select_by_code_includes:
  "\<not> js_includes SQL_SELECT_BY_CODE ''INSERT INTO urls''"
  "\<not> js_includes SQL_SELECT_BY_CODE ''UPDATE urls SET short_code''"
  "js_includes SQL_SELECT_BY_CODE ''SELECT''"
  "js_includes SQL_SELECT_BY_CODE ''short_code = $1''"
  by (simp_all add: SQL_SELECT_BY_CODE_def)

lemma increment_includes:
  "\<not> js_includes SQL_INCREMENT ''INSERT INTO urls''"
  "\<not> js_includes SQL_INCREMENT ''UPDATE urls SET short_code''"
  "\<not> js_includes SQL_INCREMENT ''SELECT''"
  "\<not> js_includes SQL_INCREMENT ''SELECT short_code FROM urls WHERE original_url''"
  "\<not> js_includes SQL_INCREMENT ''INSERT''"
  "js_includes SQL_INCREMENT ''UPDATE''"
  "js_includes SQL_INCREMENT ''click_count = click_count + 1''"
  by (simp_all add: SQL_INCREMENT_def)

lemma delete_by_code_includes:
  "\<not> js_includes SQL_DELETE_BY_CODE ''INSERT INTO urls''"
  "\<not> js_includes SQL_DELETE_BY_CODE ''UPDATE urls SET short_code''"
  "\<not> js_includes SQL_DELETE_BY_CODE ''SELECT''"
  "\<not> js_includes SQL_DELETE_BY_CODE ''SELECT short_code FROM urls WHERE original_url''"
  "\<not> js_includes SQL_DELETE_BY_CODE ''INSERT''"
  "\<not> js_includes SQL_DELETE_BY_CODE ''UPDATE''"
  "\<not> js_includes SQL_DELETE_BY_CODE ''click_count = click_count + 1''"
  "\<not> js_includes SQL_DELETE_BY_CODE ''DELETE FROM urls WHERE expires_at''"
  "\<not> js_includes SQL_DELETE_BY_CODE ''SELECT NOW()''"
  by (simp_all add: SQL_DELETE_BY_CODE_def)

lemma dedup_includes:
  "\<not> js_includes SQL_DEDUP ''INSERT INTO urls''"
  "\<not> js_includes SQL_DEDUP ''UPDATE urls SET short_code''"
  "js_includes SQL_DEDUP ''SELECT''"
  "\<not> js_includes SQL_DEDUP ''short_code = $1''"
  "js_includes SQL_DEDUP ''SELECT short_code FROM urls WHERE original_url''"
  by (simp_all add: SQL_DEDUP_def)

lemma insert_includes:
  "js_includes SQL_INSERT ''INSERT INTO urls''"
  by (simp_all add: SQL_INSERT_def)

lemma update_code_includes:
  "\<not> js_includes SQL_UPDATE_CODE ''INSERT INTO urls''"
  "js_includes SQL_UPDATE_CODE ''UPDATE urls SET short_code''"
  by (simp_all add: SQL_UPDATE_CODE_def)

lemma cleanup_includes:
  "\<not> js_includes SQL_CLEANUP ''INSERT INTO urls''"
  "\<not> js_includes SQL_CLEANUP ''UPDATE urls SET short_code''"
  "\<not> js_includes SQL_CLEANUP ''SELECT''"
  "\<not> js_includes SQL_CLEANUP ''SELECT short_code FROM urls WHERE original_url''"
  "\<not> js_includes SQL_CLEANUP ''INSERT''"
  "\<not> js_includes SQL_CLEANUP ''UPDATE''"
  "\<not> js_includes SQL_CLEANUP ''click_count = click_count + 1''"
  "\<not> js_includes SQL_CLEANUP ''DELETE FROM urls WHERE expires_at''"
  "\<not> js_includes SQL_CLEANUP ''SELECT NOW()''"
  by (simp_all add: SQL_CLEANUP_def)

lemma db_query_select_by_code:
  "db_query e SQL_SELECT_BY_CODE [JString code] st =
     (case List.find (\<lambda>u. short_code u = JString code) (map snd (urls st)) of
        Some entry \<Rightarrow> (\<lparr>rows = Some [entry_row entry], rowCount = Some 1\<rparr>, st)
      | None \<Rightarrow> (\<lparr>rows = Some [], rowCount = Some 0\<rparr>, st))"
  by (simp add: db_query_def select_by_code_includes param_at_def)

lemma db_query_increment:
  "db_query e SQL_INCREMENT [JString code] st =
     (\<lparr>rows = None, rowCount = Some 1\<rparr>,
      st\<lparr>urls := update_first (\<lambda>u. short_code u = JString code)
                     (\<lambda>u. u\<lparr>click_count := click_count u + 1\<rparr>) (urls st)\<rparr>)"
  by (simp add: db_query_def increment_includes param_at_def)

lemma db_query_delete_by_code:
  "db_query e SQL_DELETE_BY_CODE params st = (\<lparr>rows = Some [], rowCount = Some 0\<rparr>, st)"
  by (simp add: db_query_def delete_by_code_includes)

lemma db_query_dedup:
  "db_query e SQL_DEDUP [JString url] st =
     (case List.find (\<lambda>u. original_url u = JString url) (map snd (urls st)) of
        Some entry \<Rightarrow> (\<lparr>rows = Some [[(''short_code'', short_code entry)]], rowCount = None\<rparr>, st)
      | None \<Rightarrow> (\<lparr>rows = Some [], rowCount = None\<rparr>, st))"
  by (simp add: db_query_def dedup_includes param_at_def)

lemma db_query_insert:
  "db_query e SQL_INSERT [a, b, JString ''TEMP''] st =
     (\<lparr>rows = Some [[(''id'', JNumber (of_nat (currentId st)))]], rowCount = None\<rparr>,
      st\<lparr>currentId := currentId st + 1\<rparr>)"
  by (simp add: db_query_def insert_includes param_at_def)

lemma db_query_update_code:
  "db_query e SQL_UPDATE_CODE params st = (\<lparr>rows = None, rowCount = Some 1\<rparr>, st)"
  by (simp add: db_query_def update_code_includes)

lemma db_query_cleanup:
  "db_query e SQL_CLEANUP params st = (\<lparr>rows = Some [], rowCount = Some 0\<rparr>, st)"
  by (simp add: db_query_def cleanup_includes)

lemma row_get_entry_row:
  "row_get (entry_row u) ''original_url'' = original_url u"
  "row_get (entry_row u) ''expires_at'' = expires_at u"
  "row_get (entry_row u) ''short_code'' = short_code u"
  "row_get (entry_row u) ''id'' = JNumber (of_nat (entry_id u))"
  by (simp_all add: row_get_def entry_row_def)

lemma mock_db_dedup:
  "mock_db e SQL_DEDUP [JString url] d =
     (Inr (case List.find (\<lambda>u. original_url u = JString url) (map snd (urls d)) of
             Some entry \<Rightarrow> \<lparr>rows = Some [[(''short_code'', short_code entry)]], rowCount = None\<rparr>
           | None \<Rightarrow> \<lparr>rows = Some [], rowCount = None\<rparr>), d)"
  by (simp add: mock_db_def db_query_dedup split: option.split)

lemma mock_db_insert:
  "mock_db e SQL_INSERT [a, b, JString ''TEMP''] d =
     (Inr \<lparr>rows = Some [[(''id'', JNumber (of_nat (currentId d)))]], rowCount = None\<rparr>,
      d\<lparr>currentId := currentId d + 1\<rparr>)"
  by (simp add: mock_db_def db_query_insert)

lemma mock_db_update_code:
  "mock_db e SQL_UPDATE_CODE params d = (Inr \<lparr>rows = None, rowCount = Some 1\<rparr>, d)"
  by (simp add: mock_db_def db_query_update_code)

lemma mock_db_cleanup:
  "mock_db e SQL_CLEANUP params d = (Inr \<lparr>rows = Some [], rowCount = Some 0\<rparr>, d)"
  by (simp add: mock_db_def db_query_cleanup)

lemma dedup_lookup_mock:
  "dedup_lookup (mock_db e) url d =
     (case List.find (\<lambda>u. original_url u = JString url) (map snd (urls d)) of
        Some entry \<Rightarrow> (Some [(''short_code'', short_code entry)], d)
      | None \<Rightarrow> (None, d))"
  by (simp add: dedup_lookup_def mock_db_dedup split: option.split)

lemma insert_new_mock:
  "insert_new e (mock_db e) cache url expiry (d, c) =
     (let code = (if currentId d = 0 then [BASE62_ALPHABET ! 0]
                  else idToBase62_loop (currentId d) [])
      in (Inr \<lparr>shortCode = JString code, shortUrl = baseUrl e @ ''/'' @ code,
               originalUrl = url, isNew = True\<rparr>,
          d\<lparr>currentId := currentId d + 1\<rparr>,
          if cache_isReady cache c
          then snd (cache_set cache (JString code) (JString url) config_redis_ttl c)
          else c))"
  by (simp add: insert_new_def mock_db_insert mock_db_update_code row_get_def idToBase62_nat
        Let_def)

text \<open>An \<open>INSERT\<close> whose third parameter is not \<open>TEMP\<close> reaches the branch that stores an
  entry.\<close>

lemma generic_insert_includes:
  "js_includes ''INSERT INTO urls (original_url, expires_at, short_code) VALUES ($1, $2, $3)'' ''INSERT INTO urls''"
  "\<not> js_includes ''INSERT INTO urls (original_url, expires_at, short_code) VALUES ($1, $2, $3)'' ''UPDATE urls SET short_code''"
  "\<not> js_includes ''INSERT INTO urls (original_url, expires_at, short_code) VALUES ($1, $2, $3)'' ''SELECT''"
  "\<not> js_includes ''INSERT INTO urls (original_url, expires_at, short_code) VALUES ($1, $2, $3)'' ''SELECT short_code FROM urls WHERE original_url''"
  "js_includes ''INSERT INTO urls (original_url, expires_at, short_code) VALUES ($1, $2, $3)'' ''INSERT''"
  by simp_all

lemma db_query_generic_insert:
  "param_at params 2 \<noteq> JString ''TEMP'' \<Longrightarrow> length params \<ge> 2 \<Longrightarrow>
   db_query e ''INSERT INTO urls (original_url, expires_at, short_code) VALUES ($1, $2, $3)'' params st =
     (let id = currentId st;
          entry = \<lparr>entry_id = id,
                   original_url = param_at params 0,
                   expires_at = param_at params 1,
                   short_code = (if truthy (param_at params 2) then param_at params 2
                                 else JString (''temp'' @ decimal id)),
                   click_count = 0,
                   created_at = now e\<rparr>
      in (\<lparr>rows = Some [entry_row entry], rowCount = Some 1\<rparr>,
          st\<lparr>urls := urls_set id entry (urls st), currentId := id + 1\<rparr>))"
  by (simp add: db_query_def generic_insert_includes)

lemma js_trim_example [simp]:
  "js_trim ''https://example.com/a'' = ''https://example.com/a''"
  "js_trim ''https://example.com/b'' = ''https://example.com/b''"
  by (simp_all add: js_trim_def is_js_whitespace_def)

lemma sample_isURL_example [simp]:
  "sample_isURL ''https://example.com/a''" "sample_isURL ''https://example.com/b''"
  by (simp_all add: sample_isURL_def)

section \<open>Verification of the read path\<close>

lemma mock_db_select_by_code:
  "mock_db e SQL_SELECT_BY_CODE [JString code] d =
     (Inr (case List.find (\<lambda>u. short_code u = JString code) (map snd (urls d)) of
             Some entry \<Rightarrow> \<lparr>rows = Some [entry_row entry], rowCount = Some 1\<rparr>
           | None \<Rightarrow> \<lparr>rows = Some [], rowCount = Some 0\<rparr>), d)"
  by (simp add: mock_db_def db_query_select_by_code split: option.split)

lemma getOriginalUrl_hit:
  assumes "cache_isReady cache c" "fst (cache_get cache (JString code) c) = Inr v" "truthy v"
  shows "fst (getOriginalUrl e db cache code (d, c)) = Inr v"
  using assms by (cases "cache_get cache (JString code) c") (simp add: getOriginalUrl_def)

lemma getOriginalUrl_miss:
  assumes "\<not> (cache_isReady cache c \<and>
              (\<exists>v. fst (cache_get cache (JString code) c) = Inr v \<and> truthy v))"
  shows "fst (getOriginalUrl e (mock_db e) cache code (d, c)) =
           (case List.find (\<lambda>u. short_code u = JString code) (map snd (urls d)) of
              None \<Rightarrow> Inr JNull
            | Some u \<Rightarrow>
                if truthy (expires_at u) \<and> date_lt (new_Date e (expires_at u)) (now e)
                then Inr JNull else Inr (original_url u))"
proof -
  obtain cachedUrl c1 where cu:
    "(if cache_isReady cache c
      then (case cache_get cache (JString code) c of
              (Inl err, c') \<Rightarrow> (JUndefined, c')
            | (Inr v, c') \<Rightarrow> (v, c'))
      else (JUndefined, c)) = (cachedUrl, c1)"
    by (meson surj_pair)
  have "\<not> truthy cachedUrl"
  proof (cases "cache_isReady cache c")
    case False
    with cu show ?thesis by auto
  next
    case True
    obtain r c' where g: "cache_get cache (JString code) c = (r, c')" by (meson surj_pair)
    show ?thesis
    proof (cases r)
      case (Inl err)
      with True g cu show ?thesis by auto
    next
      case (Inr v)
      with True g assms have "\<not> truthy v" by auto
      with True g cu Inr show ?thesis by auto
    qed
  qed
  with cu show ?thesis
    by (simp add: getOriginalUrl_def mock_db_select_by_code row_get_entry_row Let_def
          split: option.split)
qed

text \<open>
  Claim C2. \<open>getOriginalUrl\<close> over the store client of the repository and any cache client.
  When the cache is ready and its \<open>get\<close> gives a value that counts as true (a non-empty
  address), that value is returned. Otherwise the first record of the store with that short
  code decides: none, or one whose \<open>expires_at\<close> is set and before the clock, gives \<open>null\<close>;
  any other gives its \<open>original_url\<close>.
\<close>

theorem getOriginalUrl_decision:
  "(cache_isReady cache c \<and> fst (cache_get cache (JString code) c) = Inr v \<and> truthy v \<longrightarrow>
      fst (getOriginalUrl e (mock_db e) cache code (d, c)) = Inr v) \<and>
   (\<not> (cache_isReady cache c \<and>
        (\<exists>v. fst (cache_get cache (JString code) c) = Inr v \<and> truthy v)) \<longrightarrow>
      fst (getOriginalUrl e (mock_db e) cache code (d, c)) =
        (case List.find (\<lambda>u. short_code u = JString code) (map snd (urls d)) of
           None \<Rightarrow> Inr JNull
         | Some u \<Rightarrow>
             if truthy (expires_at u) \<and> date_lt (new_Date e (expires_at u)) (now e)
             then Inr JNull else Inr (original_url u)))"
  using getOriginalUrl_hit [of cache c code v e "mock_db e" d] getOriginalUrl_miss [of cache c code e d]
  by blast

theorem getOriginalUrl_decision_witness:
  "fst (getOriginalUrl sample_env (mock_db sample_env) mock_cache ''1''
         (empty_db, ready_cache\<lparr>memoryCache := [JString ''1'' \<mapsto> JString ''https://example.com/a'']\<rparr>))
     = Inr (JString ''https://example.com/a'') \<and>
   fst (getOriginalUrl sample_env (mock_db sample_env) mock_cache ''zz'' (sample_db, ready_cache))
     = Inr JNull \<and>
   fst (getOriginalUrl sample_env (mock_db sample_env) mock_cache ''2'' (sample_db, ready_cache))
     = Inr JNull \<and>
   fst (getOriginalUrl sample_env (mock_db sample_env) mock_cache ''1'' (sample_db, ready_cache))
     = Inr (JString ''https://example.com/a'')"
proof -
  let ?warm = "ready_cache\<lparr>memoryCache := [JString ''1'' \<mapsto> JString ''https://example.com/a'']\<rparr>"
  have hit: "cache_isReady mock_cache ?warm \<and>
             fst (cache_get mock_cache (JString ''1'') ?warm) = Inr (JString ''https://example.com/a'') \<and>
             truthy (JString ''https://example.com/a'')"
    by (simp add: mock_cache_def ready_cache_def)
  have miss: "\<not> (cache_isReady mock_cache ready_cache \<and>
                 (\<exists>v. fst (cache_get mock_cache (JString code) ready_cache) = Inr v \<and> truthy v))" for code
    by (simp add: mock_cache_def ready_cache_def)
  from hit getOriginalUrl_decision [of mock_cache ?warm "''1''" "JString ''https://example.com/a''" sample_env empty_db]
  have a: "fst (getOriginalUrl sample_env (mock_db sample_env) mock_cache ''1'' (empty_db, ?warm))
     = Inr (JString ''https://example.com/a'')" by blast
  from miss [of "''zz''"] getOriginalUrl_decision [of mock_cache ready_cache "''zz''" JNull sample_env sample_db]
  have b: "fst (getOriginalUrl sample_env (mock_db sample_env) mock_cache ''zz'' (sample_db, ready_cache))
     = Inr JNull"
    by (simp add: sample_db_def sample_entry_def)
  from miss [of "''2''"] getOriginalUrl_decision [of mock_cache ready_cache "''2''" JNull sample_env sample_db]
  have c: "fst (getOriginalUrl sample_env (mock_db sample_env) mock_cache ''2'' (sample_db, ready_cache))
     = Inr JNull"
    by (simp add: sample_db_def sample_entry_def sample_env_def)
  from miss [of "''1''"] getOriginalUrl_decision [of mock_cache ready_cache "''1''" JNull sample_env sample_db]
  have d: "fst (getOriginalUrl sample_env (mock_db sample_env) mock_cache ''1'' (sample_db, ready_cache))
     = Inr (JString ''https://example.com/a'')"
    by (simp add: sample_db_def sample_entry_def sample_env_def)
  from a b c d show ?thesis by simp
qed


section \<open>Failures of the cache\<close>

text \<open>Without a hit the read path answers what the store answers, whatever the cache client
  does in \<open>get\<close>, \<open>set\<close> and \<open>del\<close>.\<close>

lemma getOriginalUrl_no_hit:
  assumes "\<not> (cache_isReady cache c \<and>
              (\<exists>v. fst (cache_get cache (JString code) c) = Inr v \<and> truthy v))"
  shows "fst (getOriginalUrl e db cache code (d, c)) = store_lookup e db code d"
proof -
  obtain cachedUrl c1 where cu:
    "(if cache_isReady cache c
      then (case cache_get cache (JString code) c of
              (Inl err, c') \<Rightarrow> (JUndefined, c')
            | (Inr v, c') \<Rightarrow> (v, c'))
      else (JUndefined, c)) = (cachedUrl, c1)"
    by (meson surj_pair)
  have "\<not> truthy cachedUrl"
  proof (cases "cache_isReady cache c")
    case False
    with cu show ?thesis
      by auto
  next
    case True
    obtain r c' where g: "cache_get cache (JString code) c = (r, c')"
      by (meson surj_pair)
    show ?thesis
    proof (cases r)
      case (Inl err)
      with True g cu show ?thesis
        by auto
    next
      case (Inr v)
      with True g assms have "\<not> truthy v"
        by auto
      with True g cu Inr show ?thesis
        by auto
    qed
  qed
  with cu show ?thesis
    by (cases "db SQL_SELECT_BY_CODE [JString code] d")
       (simp add: getOriginalUrl_def store_lookup_def Let_def
          split: sum.split option.split list.split)
qed

lemma getOriginalUrl_get_throws:
  assumes "cache_isReady cache c" "fst (cache_get cache (JString code) c) = Inl err"
  shows "fst (getOriginalUrl e db cache code (d, c)) = store_lookup e db code d"
  using assms by (intro getOriginalUrl_no_hit) auto

lemma store_lookup_mock:
  "store_lookup e (mock_db e) code d =
     (case List.find (\<lambda>u. short_code u = JString code) (map snd (urls d)) of
        None \<Rightarrow> Inr JNull
      | Some u \<Rightarrow>
          if truthy (expires_at u) \<and> date_lt (new_Date e (expires_at u)) (now e)
          then Inr JNull else Inr (original_url u))"
  by (simp add: store_lookup_def mock_db_select_by_code row_get_entry_row split: option.split)

text \<open>The write path gives the result and leaves the store as it does with a cache that is
  never ready, that is without any operation on the cache.\<close>

lemma insert_new_cache_irrelevant:
  "(fst (insert_new e db cache url expiry (d, c)),
    fst (snd (insert_new e db cache url expiry (d, c)))) =
   (fst (insert_new e db (cache\<lparr>cache_isReady := \<lambda>c. False\<rparr>) url expiry (d, c)),
    fst (snd (insert_new e db (cache\<lparr>cache_isReady := \<lambda>c. False\<rparr>) url expiry (d, c))))"
  by (simp add: insert_new_def Let_def split: prod.split sum.split option.split)

lemma createShortUrl_cache_irrelevant:
  "(fst (createShortUrl e db cache input expiry (d, c)),
    fst (snd (createShortUrl e db cache input expiry (d, c)))) =
   (fst (createShortUrl e db (cache\<lparr>cache_isReady := \<lambda>c. False\<rparr>) input expiry (d, c)),
    fst (snd (createShortUrl e db (cache\<lparr>cache_isReady := \<lambda>c. False\<rparr>) input expiry (d, c))))"
proof -
  have "(fst (insert_new e db cache url expiry (d', c)),
         fst (snd (insert_new e db cache url expiry (d', c)))) =
        (fst (insert_new e db (cache\<lparr>cache_isReady := \<lambda>c. False\<rparr>) url expiry (d', c)),
         fst (snd (insert_new e db (cache\<lparr>cache_isReady := \<lambda>c. False\<rparr>) url expiry (d', c))))"
    for url d'
    by (rule insert_new_cache_irrelevant)
  then show ?thesis
    by (simp add: createShortUrl_def Let_def split: js_value.split prod.split option.split)
qed

text \<open>Over the store client of the repository, a new address is given the code of the next
  id, whatever the cache client does.\<close>

lemma createShortUrl_mock_new:
  assumes "raw \<noteq> []" "isURL e (js_trim raw)" "length (js_trim raw) \<le> 2048"
    and "truthy expiry \<or>
         List.find (\<lambda>u. original_url u = JString (js_trim raw)) (map snd (urls d)) = None"
  shows "\<exists>code. idToBase62 (JNumber (of_nat (currentId d))) = Inr code \<and>
           fst (createShortUrl e (mock_db e) cache (JString raw) expiry (d, c)) =
             Inr \<lparr>shortCode = JString code, shortUrl = baseUrl e @ ''/'' @ code,
                   originalUrl = js_trim raw, isNew = True\<rparr> \<and>
           fst (snd (createShortUrl e (mock_db e) cache (JString raw) expiry (d, c))) =
             d\<lparr>currentId := currentId d + 1\<rparr>"
  using assms
  by (auto simp: createShortUrl_def dedup_lookup_mock insert_new_mock idToBase62_nat
        config_app_maxUrlLength_def Let_def)

text \<open>
  Claim C6. No failure of the cache reaches the caller. On the read path, when \<open>get\<close> throws,
  and more generally whenever the cache gives no hit, \<open>getOriginalUrl\<close> answers what the
  store lookup answers (over the store client of the repository: \<open>null\<close> when no record has
  the code or the first one has expired, its \<open>original_url\<close> otherwise), whatever \<open>set\<close> and
  \<open>del\<close> do afterwards, throwing included. On the write path the result of \<open>createShortUrl\<close>
  and the state of the store are those reached with a cache that is never ready, whatever the
  operations of the cache do; over the store client of the repository a new address is
  answered with the code of the next id and \<open>isNew\<close>.
\<close>

theorem cache_failures_swallowed:
  "(cache_isReady cache c \<and> fst (cache_get cache (JString code) c) = Inl err \<longrightarrow>
      fst (getOriginalUrl e db cache code (d, c)) = store_lookup e db code d) \<and>
   (\<not> (cache_isReady cache c \<and>
        (\<exists>v. fst (cache_get cache (JString code) c) = Inr v \<and> truthy v)) \<longrightarrow>
      fst (getOriginalUrl e db cache code (d, c)) = store_lookup e db code d) \<and>
   store_lookup e (mock_db e) code st =
     (case List.find (\<lambda>u. short_code u = JString code) (map snd (urls st)) of
        None \<Rightarrow> Inr JNull
      | Some u \<Rightarrow>
          if truthy (expires_at u) \<and> date_lt (new_Date e (expires_at u)) (now e)
          then Inr JNull else Inr (original_url u)) \<and>
   (fst (createShortUrl e db cache input expiry (d, c)),
    fst (snd (createShortUrl e db cache input expiry (d, c)))) =
   (fst (createShortUrl e db (cache\<lparr>cache_isReady := \<lambda>c. False\<rparr>) input expiry (d, c)),
    fst (snd (createShortUrl e db (cache\<lparr>cache_isReady := \<lambda>c. False\<rparr>) input expiry (d, c)))) \<and>
   (raw \<noteq> [] \<and> isURL e (js_trim raw) \<and> length (js_trim raw) \<le> 2048 \<and>
    (truthy expiry \<or>
     List.find (\<lambda>u. original_url u = JString (js_trim raw)) (map snd (urls st)) = None) \<longrightarrow>
      (\<exists>new_code. idToBase62 (JNumber (of_nat (currentId st))) = Inr new_code \<and>
         fst (createShortUrl e (mock_db e) cache (JString raw) expiry (st, c)) =
           Inr \<lparr>shortCode = JString new_code, shortUrl = baseUrl e @ ''/'' @ new_code,
                 originalUrl = js_trim raw, isNew = True\<rparr> \<and>
         fst (snd (createShortUrl e (mock_db e) cache (JString raw) expiry (st, c))) =
           st\<lparr>currentId := currentId st + 1\<rparr>))"
proof (intro conjI impI)
  assume "cache_isReady cache c \<and> fst (cache_get cache (JString code) c) = Inl err"
  then show "fst (getOriginalUrl e db cache code (d, c)) = store_lookup e db code d"
    by (simp add: getOriginalUrl_get_throws)
next
  assume "\<not> (cache_isReady cache c \<and>
        (\<exists>v. fst (cache_get cache (JString code) c) = Inr v \<and> truthy v))"
  then show "fst (getOriginalUrl e db cache code (d, c)) = store_lookup e db code d"
    by (rule getOriginalUrl_no_hit)
next
  show "store_lookup e (mock_db e) code st =
     (case List.find (\<lambda>u. short_code u = JString code) (map snd (urls st)) of
        None \<Rightarrow> Inr JNull
      | Some u \<Rightarrow>
          if truthy (expires_at u) \<and> date_lt (new_Date e (expires_at u)) (now e)
          then Inr JNull else Inr (original_url u))"
    by (rule store_lookup_mock)
next
  show "(fst (createShortUrl e db cache input expiry (d, c)),
    fst (snd (createShortUrl e db cache input expiry (d, c)))) =
   (fst (createShortUrl e db (cache\<lparr>cache_isReady := \<lambda>c. False\<rparr>) input expiry (d, c)),
    fst (snd (createShortUrl e db (cache\<lparr>cache_isReady := \<lambda>c. False\<rparr>) input expiry (d, c))))"
    by (rule createShortUrl_cache_irrelevant)
next
  assume "raw \<noteq> [] \<and> isURL e (js_trim raw) \<and> length (js_trim raw) \<le> 2048 \<and>
    (truthy expiry \<or>
     List.find (\<lambda>u. original_url u = JString (js_trim raw)) (map snd (urls st)) = None)"
  then show "\<exists>new_code. idToBase62 (JNumber (of_nat (currentId st))) = Inr new_code \<and>
         fst (createShortUrl e (mock_db e) cache (JString raw) expiry (st, c)) =
           Inr \<lparr>shortCode = JString new_code, shortUrl = baseUrl e @ ''/'' @ new_code,
                 originalUrl = js_trim raw, isNew = True\<rparr> \<and>
         fst (snd (createShortUrl e (mock_db e) cache (JString raw) expiry (st, c))) =
           st\<lparr>currentId := currentId st + 1\<rparr>"
    by (intro createShortUrl_mock_new) simp_all
qed

text \<open>With a cache client whose every operation throws, over the sample store: the read of
  code \<open>1\<close> answers its address, and a new address is given the code \<open>3\<close>.\<close>

theorem cache_failures_swallowed_witness:
  "cache_isReady failing_cache ready_cache \<and>
   fst (cache_get failing_cache (JString ''1'') ready_cache) = Inl (ClientError ''ECONNRESET'') \<and>
   fst (cache_set failing_cache (JString ''3'') (JString ''https://example.com/b'')
          config_redis_ttl ready_cache) = Inl (ClientError ''ECONNRESET'') \<and>
   fst (getOriginalUrl sample_env (mock_db sample_env) failing_cache ''1'' (sample_db, ready_cache))
     = Inr (JString ''https://example.com/a'') \<and>
   fst (createShortUrl sample_env (mock_db sample_env) failing_cache
          (JString ''https://example.com/b'') JNull (sample_db, ready_cache))
     = Inr \<lparr>shortCode = JString ''3'', shortUrl = ''http://localhost:3000/3'',
            originalUrl = ''https://example.com/b'', isNew = True\<rparr> \<and>
   fst (snd (createShortUrl sample_env (mock_db sample_env) failing_cache
          (JString ''https://example.com/b'') JNull (sample_db, ready_cache)))
     = sample_db\<lparr>currentId := 4\<rparr>"
proof -
  have h: "cache_isReady failing_cache ready_cache \<and>
           fst (cache_get failing_cache (JString ''1'') ready_cache) =
             Inl (ClientError ''ECONNRESET'')"
    by (simp add: failing_cache_def)
  have s: "fst (cache_set failing_cache (JString ''3'') (JString ''https://example.com/b'')
          config_redis_ttl ready_cache) = Inl (ClientError ''ECONNRESET'')"
    by (simp add: failing_cache_def)
  have v: "''https://example.com/b'' \<noteq> [] \<and>
           isURL sample_env (js_trim ''https://example.com/b'') \<and>
           length (js_trim ''https://example.com/b'') \<le> 2048 \<and>
           (truthy JNull \<or>
            List.find (\<lambda>u. original_url u = JString (js_trim ''https://example.com/b''))
              (map snd (urls sample_db)) = None)"
    by (simp add: sample_env_def sample_db_def sample_entry_def)
  have i: "idToBase62 (JNumber (of_nat (currentId sample_db))) = Inr ''3''"
    using idToBase62_nat [of 3] by (simp add: sample_db_def idToBase62_loop_small)
  note t = cache_failures_swallowed [of failing_cache ready_cache "''1''"
      "ClientError ''ECONNRESET''" sample_env "mock_db sample_env" sample_db sample_db
      "JString ''https://example.com/b''" JNull "''https://example.com/b''"]
  from t h have "fst (getOriginalUrl sample_env (mock_db sample_env) failing_cache ''1''
          (sample_db, ready_cache)) = store_lookup sample_env (mock_db sample_env) ''1'' sample_db"
    by blast
  moreover from t have "store_lookup sample_env (mock_db sample_env) ''1'' sample_db =
     (case List.find (\<lambda>u. short_code u = JString ''1'') (map snd (urls sample_db)) of
        None \<Rightarrow> Inr JNull
      | Some u \<Rightarrow>
          if truthy (expires_at u) \<and> date_lt (new_Date sample_env (expires_at u)) (now sample_env)
          then Inr JNull else Inr (original_url u))"
    by blast
  ultimately have a: "fst (getOriginalUrl sample_env (mock_db sample_env) failing_cache ''1''
          (sample_db, ready_cache)) = Inr (JString ''https://example.com/a'')"
    by (simp add: sample_db_def sample_entry_def sample_env_def)
  from t v obtain new_code where n:
    "idToBase62 (JNumber (of_nat (currentId sample_db))) = Inr new_code"
    "fst (createShortUrl sample_env (mock_db sample_env) failing_cache
            (JString ''https://example.com/b'') JNull (sample_db, ready_cache)) =
       Inr \<lparr>shortCode = JString new_code, shortUrl = baseUrl sample_env @ ''/'' @ new_code,
             originalUrl = js_trim ''https://example.com/b'', isNew = True\<rparr>"
    "fst (snd (createShortUrl sample_env (mock_db sample_env) failing_cache
            (JString ''https://example.com/b'') JNull (sample_db, ready_cache))) =
       sample_db\<lparr>currentId := currentId sample_db + 1\<rparr>"
    by blast
  from n(1) i have "new_code = ''3''"
    by simp
  with n(2,3) have b: "fst (createShortUrl sample_env (mock_db sample_env) failing_cache
          (JString ''https://example.com/b'') JNull (sample_db, ready_cache))
     = Inr \<lparr>shortCode = JString ''3'', shortUrl = ''http://localhost:3000/3'',
            originalUrl = ''https://example.com/b'', isNew = True\<rparr>"
    and c: "fst (snd (createShortUrl sample_env (mock_db sample_env) failing_cache
          (JString ''https://example.com/b'') JNull (sample_db, ready_cache)))
     = sample_db\<lparr>currentId := 4\<rparr>"
    by (simp_all add: sample_env_def sample_db_def)
  from h s a b c show ?thesis
    by simp
qed

section \<open>The cleanup job\<close>

text \<open>With any store client the job returns the \<open>rowCount\<close> of the answer and removes the
  code of every row of the answer from the cache.\<close>

lemma cleanupExpiredUrls_result:
  assumes "db SQL_CLEANUP [] d = (Inr result, d1)" "rows result = Some rs"
  shows "cleanupExpiredUrls db cache (d, c) =
         (Inr (rowCount result), d1,
          foldl (\<lambda>c' r. snd (cache_del cache (row_get r ''short_code'') c')) c rs)"
  using assms by (simp add: cleanupExpiredUrls_def)

lemma cleanupExpiredUrls_mock:
  "cleanupExpiredUrls (mock_db e) cache (d, c) = (Inr (Some 0), d, c)"
  by (simp add: cleanupExpiredUrls_def mock_db_cleanup)

lemma cleanup_one_line_includes:
  "\<not> js_includes SQL_CLEANUP_ONE_LINE ''INSERT INTO urls''"
  "\<not> js_includes SQL_CLEANUP_ONE_LINE ''UPDATE urls SET short_code''"
  "\<not> js_includes SQL_CLEANUP_ONE_LINE ''SELECT''"
  "\<not> js_includes SQL_CLEANUP_ONE_LINE ''SELECT short_code FROM urls WHERE original_url''"
  "\<not> js_includes SQL_CLEANUP_ONE_LINE ''INSERT''"
  "\<not> js_includes SQL_CLEANUP_ONE_LINE ''UPDATE''"
  "\<not> js_includes SQL_CLEANUP_ONE_LINE ''click_count = click_count + 1''"
  "js_includes SQL_CLEANUP_ONE_LINE ''DELETE FROM urls WHERE expires_at''"
  by (simp_all add: SQL_CLEANUP_ONE_LINE_def)

lemma db_query_cleanup_one_line:
  "db_query e SQL_CLEANUP_ONE_LINE params st =
     (\<lparr>rows = Some (map entry_row (filter (\<lambda>u. entry_expired e (expires_at u)) (map snd (urls st)))),
       rowCount = Some (length (filter (\<lambda>u. entry_expired e (expires_at u)) (map snd (urls st))))\<rparr>,
      st\<lparr>urls := filter (\<lambda>(k, u). \<not> entry_expired e (expires_at u)) (urls st)\<rparr>)"
  by (simp add: db_query_def cleanup_one_line_includes Let_def)

text \<open>
  Claim C9, evaluated on the code. Two \<open>INSERT\<close>s through the client build a store with a
  record that expires at 500 ms. The statement that \<open>cleanupExpiredUrls\<close> sends is a
  template literal of four lines; the store client looks for the text
  \<open>DELETE FROM urls WHERE expires_at\<close> with single blanks, which that statement does not
  contain. So with the clock at 1000 ms the call returns 0 and leaves the store as it was,
  while the same statement written on one line reaches the branch that deletes the record and
  counts it.
\<close>

theorem cleanupExpiredUrls_deletes_nothing:
  "snd (db_query (sample_env\<lparr>now := 0\<rparr>)
          ''INSERT INTO urls (original_url, expires_at, short_code) VALUES ($1, $2, $3)''
          [JString ''https://example.com/old'', JDate (Some 500), JString ''2'']
          (snd (db_query (sample_env\<lparr>now := 0\<rparr>)
                  ''INSERT INTO urls (original_url, expires_at, short_code) VALUES ($1, $2, $3)''
                  [JString ''https://example.com/a'', JNull, JString ''1'']
                  empty_db))) = sample_db \<and>
   entry_expired sample_env (JDate (Some 500)) \<and>
   cleanupExpiredUrls (mock_db sample_env) mock_cache (sample_db, ready_cache) =
     (Inr (Some 0), sample_db, ready_cache) \<and>
   \<not> js_includes SQL_CLEANUP ''DELETE FROM urls WHERE expires_at'' \<and>
   rowCount (fst (db_query sample_env SQL_CLEANUP_ONE_LINE [] sample_db)) = Some 1 \<and>
   urls (snd (db_query sample_env SQL_CLEANUP_ONE_LINE [] sample_db)) =
     [(1, sample_entry 1 ''https://example.com/a'' JNull ''1'')]"
proof -
  have "snd (db_query (sample_env\<lparr>now := 0\<rparr>)
          ''INSERT INTO urls (original_url, expires_at, short_code) VALUES ($1, $2, $3)''
          [JString ''https://example.com/old'', JDate (Some 500), JString ''2'']
          (snd (db_query (sample_env\<lparr>now := 0\<rparr>)
                  ''INSERT INTO urls (original_url, expires_at, short_code) VALUES ($1, $2, $3)''
                  [JString ''https://example.com/a'', JNull, JString ''1'']
                  empty_db))) = sample_db"
    by (simp add: db_query_generic_insert param_at_def empty_db_def sample_db_def sample_entry_def
          sample_env_def urls_set_def Let_def)
  then show ?thesis
    by (simp add: cleanupExpiredUrls_mock cleanup_includes db_query_cleanup_one_line
          entry_expired_def sample_env_def sample_entry_def sample_db_def)
qed

section \<open>The write path\<close>

text \<open>With any store client: when the lookup answers with a row, its code is returned with
  \<open>isNew = false\<close> and nothing but the lookup has touched the store.\<close>

lemma createShortUrl_dedup_hit:
  assumes "raw \<noteq> []" "isURL e (js_trim raw)"
    and "length (js_trim raw) \<le> config_app_maxUrlLength" "\<not> truthy expiry"
    and "db SQL_DEDUP [JString (js_trim raw)] d = (Inr existing, d1)"
    and "rows existing = Some (r # rs)"
  shows "createShortUrl e db cache (JString raw) expiry (d, c) =
         (Inr \<lparr>shortCode = row_get r ''short_code'',
               shortUrl = baseUrl e @ ''/'' @ template e (row_get r ''short_code''),
               originalUrl = js_trim raw, isNew = False\<rparr>, d1, c)"
  using assms by (simp add: createShortUrl_def dedup_lookup_def Let_def)

text \<open>When the lookup of a duplicate throws, the error is caught and the creation goes on
  from the state the lookup left.\<close>

lemma createShortUrl_dedup_throws:
  assumes "fst (db SQL_DEDUP [JString (js_trim raw)] d) = Inl err"
    and "truthy (JString raw)" "isURL e (js_trim raw)"
    and "length (js_trim raw) \<le> config_app_maxUrlLength" "\<not> truthy expiry"
  shows "createShortUrl e db cache (JString raw) expiry (d, c) =
         insert_new e db cache (js_trim raw) expiry (snd (db SQL_DEDUP [JString (js_trim raw)] d), c)"
  using assms
  by (cases "db SQL_DEDUP [JString (js_trim raw)] d")
     (simp add: createShortUrl_def dedup_lookup_def Let_def)

text \<open>For example, with a store client whose lookup throws, on a store that holds the
  address already: a new code is derived and the answer says \<open>isNew\<close>.\<close>

lemma dedup_failing_db_statements:
  "dedup_failing_db e SQL_DEDUP params d = (Inl (ClientError ''connection lost''), d)"
  "dedup_failing_db e SQL_INSERT = mock_db e SQL_INSERT"
  "dedup_failing_db e SQL_UPDATE_CODE = mock_db e SQL_UPDATE_CODE"
  by (simp_all add: dedup_failing_db_def SQL_DEDUP_def SQL_INSERT_def SQL_UPDATE_CODE_def
        fun_eq_iff)

lemma insert_new_dedup_failing_db:
  "insert_new e (dedup_failing_db e) cache url expiry s = insert_new e (mock_db e) cache url expiry s"
  unfolding insert_new_def dedup_failing_db_statements by (rule refl)

lemma createShortUrl_dedup_failure_example:
  "createShortUrl sample_env (dedup_failing_db sample_env) mock_cache
       (JString ''https://example.com/a'') JUndefined (dup_db, ready_cache) =
     (Inr \<lparr>shortCode = JString ''3'', shortUrl = ''http://localhost:3000/3'',
            originalUrl = ''https://example.com/a'', isNew = True\<rparr>,
      dup_db\<lparr>currentId := 4\<rparr>,
      ready_cache\<lparr>memoryCache := [JString ''3'' \<mapsto> JString ''https://example.com/a'']\<rparr>)"
proof -
  have "createShortUrl sample_env (dedup_failing_db sample_env) mock_cache
       (JString ''https://example.com/a'') JUndefined (dup_db, ready_cache) =
     insert_new sample_env (dedup_failing_db sample_env) mock_cache ''https://example.com/a''
       JUndefined (dup_db, ready_cache)"
    by (subst createShortUrl_dedup_throws [where err = "ClientError ''connection lost''"])
       (simp_all add: dedup_failing_db_statements sample_env_def config_app_maxUrlLength_def)
  then show ?thesis
    by (simp add: insert_new_dedup_failing_db insert_new_mock dup_db_def mock_cache_def
          ready_cache_def sample_env_def idToBase62_loop_small BASE62_ALPHABET_def Let_def)
qed

text \<open>
  Claim C3, evaluated on the code. The statement of the lookup asks for
  \<open>expires_at IS NULL\<close>; the store client compares the address only and takes the first
  entry of its table. Two \<open>INSERT\<close>s through the client build a table where the address has
  a record that expires at 5000 ms (code \<open>1\<close>) before the one that never expires (code
  \<open>2\<close>); a request without expiry for that address is then answered with the code of the
  expiring record.
\<close>

theorem createShortUrl_returns_expiring_duplicate:
  "snd (db_query (sample_env\<lparr>now := 0\<rparr>)
          ''INSERT INTO urls (original_url, expires_at, short_code) VALUES ($1, $2, $3)''
          [JString ''https://example.com/a'', JNull, JString ''2'']
          (snd (db_query (sample_env\<lparr>now := 0\<rparr>)
                  ''INSERT INTO urls (original_url, expires_at, short_code) VALUES ($1, $2, $3)''
                  [JString ''https://example.com/a'', JDate (Some 5000), JString ''1'']
                  empty_db))) = dup_db \<and>
   createShortUrl sample_env (mock_db sample_env) mock_cache
       (JString ''https://example.com/a'') JUndefined (dup_db, ready_cache) =
     (Inr \<lparr>shortCode = JString ''1'', shortUrl = ''http://localhost:3000/1'',
            originalUrl = ''https://example.com/a'', isNew = False\<rparr>, dup_db, ready_cache)"
proof -
  have a: "snd (db_query (sample_env\<lparr>now := 0\<rparr>)
          ''INSERT INTO urls (original_url, expires_at, short_code) VALUES ($1, $2, $3)''
          [JString ''https://example.com/a'', JNull, JString ''2'']
          (snd (db_query (sample_env\<lparr>now := 0\<rparr>)
                  ''INSERT INTO urls (original_url, expires_at, short_code) VALUES ($1, $2, $3)''
                  [JString ''https://example.com/a'', JDate (Some 5000), JString ''1'']
                  empty_db))) = dup_db"
    by (simp add: db_query_generic_insert param_at_def empty_db_def dup_db_def sample_entry_def
          sample_env_def urls_set_def Let_def)
  have b: "createShortUrl sample_env (mock_db sample_env) mock_cache
       (JString ''https://example.com/a'') JUndefined (dup_db, ready_cache) =
     (Inr \<lparr>shortCode = JString ''1'', shortUrl = ''http://localhost:3000/1'',
            originalUrl = ''https://example.com/a'', isNew = False\<rparr>, dup_db, ready_cache)"
    by (simp add: createShortUrl_def dedup_lookup_mock sample_env_def dup_db_def
          sample_entry_def config_app_maxUrlLength_def row_get_def template_def Let_def)
  from a b show ?thesis by simp
qed

lemma js_trim_padded: "js_trim (s @ replicate n CHR '' '') = js_trim s"
proof -
  have "dropWhile is_js_whitespace (replicate n CHR '' '' @ rev s) = dropWhile is_js_whitespace (rev s)"
    by (rule dropWhile_append2) (simp add: is_js_whitespace_def)
  then show ?thesis by (simp add: js_trim_def)
qed

lemma js_trim_id:
  assumes "s \<noteq> []" "\<not> is_js_whitespace (hd s)" "\<not> is_js_whitespace (last s)"
  shows "js_trim s = s"
proof -
  from assms have "dropWhile is_js_whitespace (rev s) = rev s"
    by (cases "rev s") (auto simp: last_rev [symmetric] simp del: last_rev)
  moreover from assms have "dropWhile is_js_whitespace s = s" by (cases s) auto
  ultimately show ?thesis by (simp add: js_trim_def)
qed

lemma js_startsWith_toLowerCase:
  "js_startsWith s p \<Longrightarrow> js_startsWith (js_toLowerCase s) (js_toLowerCase p)"
  by (induction s p rule: js_startsWith.induct) (simp_all add: js_toLowerCase_def)

lemma sample_env_requires_http_scheme: "requires_http_scheme sample_env"
proof -
  have l: "js_toLowerCase ''http://'' = ''http://''" "js_toLowerCase ''https://'' = ''https://''"
    by (simp_all add: js_toLowerCase_def)
  have "has_http_scheme s" if "sample_isURL s" for s
  proof -
    from that have "js_startsWith s ''http://'' \<or> js_startsWith s ''https://''"
      by (simp add: sample_isURL_def)
    then show ?thesis
      unfolding has_http_scheme_def
      using js_startsWith_toLowerCase [of s "''http://''"]
        js_startsWith_toLowerCase [of s "''https://''"] by (auto simp only: l)
  qed
  then show ?thesis by (simp add: requires_http_scheme_def sample_env_def)
qed

text \<open>
  Claim C4 as stated fails: the length is checked after \<open>trim()\<close>, so an input of more
  than 2048 characters whose trimmed form is a valid short address is accepted and inserted.
\<close>

theorem createShortUrl_accepts_padded_input:
  "length padded_url > 2048 \<and>
   fst (createShortUrl sample_env (mock_db sample_env) mock_cache
          (JString padded_url) JUndefined (empty_db, ready_cache)) =
     Inr \<lparr>shortCode = JString ''1'', shortUrl = ''http://localhost:3000/1'',
           originalUrl = ''https://example.com/a'', isNew = True\<rparr>"
proof -
  have len: "length padded_url > 2048" by (simp add: padded_url_def)
  then have ne: "padded_url \<noteq> []" by auto
  have tr: "js_trim padded_url = ''https://example.com/a''"
    unfolding padded_url_def by (simp only: js_trim_padded js_trim_example)
  from ne have "fst (createShortUrl sample_env (mock_db sample_env) mock_cache
          (JString padded_url) JUndefined (empty_db, ready_cache)) =
     Inr \<lparr>shortCode = JString ''1'', shortUrl = ''http://localhost:3000/1'',
           originalUrl = ''https://example.com/a'', isNew = True\<rparr>"
    by (simp add: createShortUrl_def tr dedup_lookup_mock insert_new_mock sample_env_def
          empty_db_def config_app_maxUrlLength_def
          idToBase62_loop_small BASE62_ALPHABET_def Let_def)
  with len show ?thesis by simp
qed

text \<open>
  Claim C4, amended. \<open>createShortUrl\<close> throws, before any operation on the store or the
  cache (their states are returned unchanged, whatever the clients), on every input that is
  not a string or is the empty string, and on every string whose trimmed form the validator
  rejects or that is longer than 2048 characters after trimming. Since the validator is called
  with \<open>require_protocol\<close> and the protocols http and https, a trimmed form without one of
  these schemes is among the rejected ones.
\<close>

theorem createShortUrl_rejects_invalid:
  "((\<forall>s. input \<noteq> JString s) \<or> input = JString [] \<longrightarrow>
      createShortUrl e db cache input expiry (d, c) = (Inl UrlIsRequired, d, c)) \<and>
   (input = JString s \<and> s \<noteq> [] \<and> \<not> isURL e (js_trim s) \<longrightarrow>
      createShortUrl e db cache input expiry (d, c) = (Inl InvalidUrlFormat, d, c)) \<and>
   (input = JString s \<and> s \<noteq> [] \<and> length (js_trim s) > 2048 \<longrightarrow>
      createShortUrl e db cache input expiry (d, c) = (Inl InvalidUrlFormat, d, c) \<or>
      createShortUrl e db cache input expiry (d, c) = (Inl UrlTooLong, d, c)) \<and>
   (requires_http_scheme e \<and> input = JString s \<and> s \<noteq> [] \<and> \<not> has_http_scheme (js_trim s) \<longrightarrow>
      createShortUrl e db cache input expiry (d, c) = (Inl InvalidUrlFormat, d, c))"
proof (intro conjI impI)
  assume "(\<forall>s. input \<noteq> JString s) \<or> input = JString []"
  then show "createShortUrl e db cache input expiry (d, c) = (Inl UrlIsRequired, d, c)"
    by (cases input) (auto simp: createShortUrl_def)
next
  assume "input = JString s \<and> s \<noteq> [] \<and> \<not> isURL e (js_trim s)"
  then show "createShortUrl e db cache input expiry (d, c) = (Inl InvalidUrlFormat, d, c)"
    by (simp add: createShortUrl_def Let_def)
next
  assume "input = JString s \<and> s \<noteq> [] \<and> length (js_trim s) > 2048"
  then show "createShortUrl e db cache input expiry (d, c) = (Inl InvalidUrlFormat, d, c) \<or>
      createShortUrl e db cache input expiry (d, c) = (Inl UrlTooLong, d, c)"
    by (simp add: createShortUrl_def config_app_maxUrlLength_def Let_def)
next
  assume "requires_http_scheme e \<and> input = JString s \<and> s \<noteq> [] \<and> \<not> has_http_scheme (js_trim s)"
  then show "createShortUrl e db cache input expiry (d, c) = (Inl InvalidUrlFormat, d, c)"
    by (auto simp: createShortUrl_def requires_http_scheme_def Let_def)
qed

theorem createShortUrl_rejects_invalid_witness:
  "createShortUrl sample_env (mock_db sample_env) mock_cache (JNumber 5) JNull (empty_db, ready_cache)
     = (Inl UrlIsRequired, empty_db, ready_cache) \<and>
   createShortUrl sample_env (mock_db sample_env) mock_cache (JString '''') JNull (empty_db, ready_cache)
     = (Inl UrlIsRequired, empty_db, ready_cache) \<and>
   createShortUrl sample_env (mock_db sample_env) mock_cache (JString ''not a url'') JNull
       (empty_db, ready_cache)
     = (Inl InvalidUrlFormat, empty_db, ready_cache) \<and>
   createShortUrl sample_env (mock_db sample_env) mock_cache (JString '' ftp://example.com/a '') JNull
       (empty_db, ready_cache)
     = (Inl InvalidUrlFormat, empty_db, ready_cache) \<and>
   createShortUrl sample_env (mock_db sample_env) mock_cache
       (JString long_url) JNull (empty_db, ready_cache)
     = (Inl UrlTooLong, empty_db, ready_cache)"
proof -
  note t = createShortUrl_rejects_invalid [where e = sample_env and db = "mock_db sample_env" and cache = mock_cache
      and expiry = JNull and d = empty_db and c = ready_cache]
  have a: "createShortUrl sample_env (mock_db sample_env) mock_cache (JNumber 5) JNull (empty_db, ready_cache)
     = (Inl UrlIsRequired, empty_db, ready_cache)"
    using t [of "JNumber 5" "[]"] by simp
  have b: "createShortUrl sample_env (mock_db sample_env) mock_cache (JString '''') JNull (empty_db, ready_cache)
     = (Inl UrlIsRequired, empty_db, ready_cache)"
    using t [of "JString []" "[]"] by simp
  have "\<not> isURL sample_env (js_trim ''not a url'')"
    by (simp add: sample_env_def sample_isURL_def js_trim_def is_js_whitespace_def)
  then have c: "createShortUrl sample_env (mock_db sample_env) mock_cache (JString ''not a url'') JNull
       (empty_db, ready_cache) = (Inl InvalidUrlFormat, empty_db, ready_cache)"
    using t [of "JString ''not a url''" "''not a url''"] by simp
  have "\<not> has_http_scheme (js_trim '' ftp://example.com/a '')"
    by (simp add: has_http_scheme_def js_toLowerCase_def js_trim_def is_js_whitespace_def)
  then have d: "createShortUrl sample_env (mock_db sample_env) mock_cache (JString '' ftp://example.com/a '') JNull
       (empty_db, ready_cache) = (Inl InvalidUrlFormat, empty_db, ready_cache)"
    using t [of "JString '' ftp://example.com/a ''" "'' ftp://example.com/a ''"]
      sample_env_requires_http_scheme by simp
  have ne: "long_url \<noteq> []" by (simp add: long_url_def)
  have tr: "js_trim long_url = long_url"
    by (rule js_trim_id) (simp_all add: is_js_whitespace_def long_url_def)
  have len: "length long_url > 2048" by (simp add: long_url_def)
  have "isURL sample_env long_url"
    by (simp add: sample_env_def sample_isURL_def js_includes_single long_url_def)
  with tr ne have "createShortUrl sample_env (mock_db sample_env) mock_cache (JString long_url) JNull
       (empty_db, ready_cache) \<noteq> (Inl InvalidUrlFormat, empty_db, ready_cache)"
    by (simp add: createShortUrl_def config_app_maxUrlLength_def Let_def len)
  with tr ne len have e: "createShortUrl sample_env (mock_db sample_env) mock_cache (JString long_url) JNull
       (empty_db, ready_cache) = (Inl UrlTooLong, empty_db, ready_cache)"
    using t [of "JString long_url" long_url] by simp
  from a b c d e show ?thesis by simp
qed

section \<open>The route of the write path\<close>

text \<open>An expiry that cannot be parsed or lies before the clock is answered with status 400
  and no operation on the store or the cache; an expiry equal to the clock goes on to
  \<open>createShortUrl\<close>.\<close>

lemma post_shorten_rejects_bad_expiry:
  assumes "truthy body_url" "truthy x"
    and "new_Date e x = None \<or> date_lt (new_Date e x) (now e)"
  shows "status (fst (post_shorten e db cache body_url x s)) = 400 \<and>
         snd (post_shorten e db cache body_url x s) = s"
  using assms by (auto simp: post_shorten_def)

lemma post_shorten_expiry_now:
  assumes "truthy body_url" "truthy x" "new_Date e x = Some (now e)"
  shows "post_shorten e db cache body_url x s =
         (case createShortUrl e db cache body_url (JDate (Some (now e))) s of
            (Inl err, s') \<Rightarrow> (\<lparr>status = 400, body = ThrownMessage err\<rparr>, s')
          | (Inr r, s') \<Rightarrow> (\<lparr>status = 201, body = Shortened r\<rparr>, s'))"
  using assms by (simp add: post_shorten_def)

text \<open>
  Claim C5, evaluated on the code. The handler rejects an expiry with \<open>expiresAt < new Date()\<close>,
  which is false when the two are equal: with the clock at 1000 ms an expiry of 1000 ms is
  accepted and the address created (status 201), while an expiry of 999 ms is rejected with
  the message that the expiry must be in the future.
\<close>

theorem post_shorten_accepts_expiry_now:
  "new_Date sample_env (JNumber 1000) = Some (now sample_env) \<and>
   fst (post_shorten sample_env (mock_db sample_env) mock_cache
          (JString ''https://example.com/a'') (JNumber 1000) (empty_db, ready_cache)) =
     \<lparr>status = 201,
      body = Shortened \<lparr>shortCode = JString ''1'', shortUrl = ''http://localhost:3000/1'',
                        originalUrl = ''https://example.com/a'', isNew = True\<rparr>\<rparr> \<and>
   fst (post_shorten sample_env (mock_db sample_env) mock_cache
          (JString ''https://example.com/a'') (JNumber 999) (empty_db, ready_cache)) =
     \<lparr>status = 400, body = ErrorMessage ''expires_at must be in the future''\<rparr>"
proof -
  have a: "new_Date sample_env (JNumber 1000) = Some (now sample_env)"
    by (simp add: sample_env_def)
  have c: "createShortUrl sample_env (mock_db sample_env) mock_cache
             (JString ''https://example.com/a'') (JDate (Some (now sample_env))) (empty_db, ready_cache) =
           (Inr \<lparr>shortCode = JString ''1'', shortUrl = ''http://localhost:3000/1'',
                  originalUrl = ''https://example.com/a'', isNew = True\<rparr>,
            empty_db\<lparr>currentId := 2\<rparr>,
            ready_cache\<lparr>memoryCache := [JString ''1'' \<mapsto> JString ''https://example.com/a'']\<rparr>)"
    by (simp add: createShortUrl_def insert_new_mock sample_env_def mock_cache_def ready_cache_def
          empty_db_def config_app_maxUrlLength_def
          idToBase62_loop_small BASE62_ALPHABET_def Let_def)
  have b: "fst (post_shorten sample_env (mock_db sample_env) mock_cache
          (JString ''https://example.com/a'') (JNumber 1000) (empty_db, ready_cache)) =
     \<lparr>status = 201,
      body = Shortened \<lparr>shortCode = JString ''1'', shortUrl = ''http://localhost:3000/1'',
                        originalUrl = ''https://example.com/a'', isNew = True\<rparr>\<rparr>"
    by (subst post_shorten_expiry_now) (simp_all add: a c)
  have d: "fst (post_shorten sample_env (mock_db sample_env) mock_cache
          (JString ''https://example.com/a'') (JNumber 999) (empty_db, ready_cache)) =
     \<lparr>status = 400, body = ErrorMessage ''expires_at must be in the future''\<rparr>"
    by (simp add: post_shorten_def sample_env_def)
  from a b d show ?thesis by simp
qed

end
